theory Spec2Isabelle
  imports Complex_Main "HOL-Library.Word"
begin

section \<open>Python values used by the bot\<close>

text \<open>
  A Python \<open>str\<close> is a sequence of Unicode code points, so it is modelled as a list of
  natural numbers, one per code point. \<open>ustr\<close> turns an Isabelle string literal (whose
  characters are below 256) into such a list.
\<close>

type_synonym pystr = "nat list"

definition ustr :: "string \<Rightarrow> pystr" where
  "ustr s = map of_char s"

text \<open>The code points for which \<open>str.isspace\<close> holds; \<open>strip()\<close> and \<open>split()\<close> use them.\<close>

definition isspace :: "nat \<Rightarrow> bool" where
  "isspace c =
     (c \<in> {9, 10, 11, 12, 13, 28, 29, 30, 31, 32, 133, 160, 5760, 8232, 8233, 8239, 8287, 12288}
      \<or> (8192 \<le> c \<and> c \<le> 8202))"

text \<open>\<open>s.strip(chars)\<close>: drop the characters satisfying \<open>P\<close> from both ends.\<close>

definition strip_where :: "('a \<Rightarrow> bool) \<Rightarrow> 'a list \<Rightarrow> 'a list" where
  "strip_where P xs = rev (dropWhile P (rev (dropWhile P xs)))"

definition strip :: "pystr \<Rightarrow> pystr" where
  "strip s = strip_where isspace s"

text \<open>\<open>s.split(sep)\<close> for a one-character separator: empty parts are kept, and the result
  always has at least one part.\<close>

fun split_aux :: "'a \<Rightarrow> 'a list \<Rightarrow> 'a list \<Rightarrow> 'a list list" where
  "split_aux sep cur [] = [cur]"
| "split_aux sep cur (c # cs) =
     (if c = sep then cur # split_aux sep [] cs else split_aux sep (cur @ [c]) cs)"

definition split_on :: "'a \<Rightarrow> 'a list \<Rightarrow> 'a list list" where
  "split_on sep xs = split_aux sep [] xs"

text \<open>\<open>s.split()\<close>: split at runs of whitespace, no empty parts.\<close>

fun split_ws_aux :: "pystr \<Rightarrow> pystr \<Rightarrow> pystr list" where
  "split_ws_aux cur [] = (if cur = [] then [] else [cur])"
| "split_ws_aux cur (c # cs) =
     (if isspace c then (if cur = [] then split_ws_aux [] cs else cur # split_ws_aux [] cs)
      else split_ws_aux (cur @ [c]) cs)"

definition split_ws :: "pystr \<Rightarrow> pystr list" where
  "split_ws s = split_ws_aux [] s"

text \<open>\<open>s.replace(",", "")\<close> and \<open>s.replace(",", ".")\<close>; 44 is the comma, 46 the full stop.\<close>

definition remove_commas :: "pystr \<Rightarrow> pystr" where
  "remove_commas s = filter (\<lambda>c. c \<noteq> 44) s"

definition commas_to_dots :: "pystr \<Rightarrow> pystr" where
  "commas_to_dots s = map (\<lambda>c. if c = 44 then 46 else c) s"

text \<open>An ASCII decimal digit, 48..57.\<close>

definition is_digit :: "nat \<Rightarrow> bool" where
  "is_digit c = (48 \<le> c \<and> c \<le> 57)"

text \<open>
  A Python \<open>float\<close> is an IEEE double: a finite number, one of the two zeros, one of the
  two infinities, or NaN. \<open>Finite 0\<close> is \<open>0.0\<close> and \<open>NegZero\<close> is \<open>-0.0\<close>. Which reals
  are doubles, and how a result is rounded, is not modelled: the arithmetic is a
  parameter of the model (\<open>float_mul\<close> below). The comparisons are those of IEEE: the
  two zeros are equal, and every comparison with NaN is false.
\<close>

datatype pyfloat = Finite real | NegZero | PosInf | NegInf | NaN

fun float_le :: "pyfloat \<Rightarrow> pyfloat \<Rightarrow> bool" where
  "float_le NaN y = False"
| "float_le x NaN = False"
| "float_le NegInf y = True"
| "float_le x PosInf = True"
| "float_le PosInf y = False"
| "float_le x NegInf = False"
| "float_le (Finite a) (Finite b) = (a \<le> b)"
| "float_le (Finite a) NegZero = (a \<le> 0)"
| "float_le NegZero (Finite b) = (0 \<le> b)"
| "float_le NegZero NegZero = True"

definition float_ge :: "pyfloat \<Rightarrow> pyfloat \<Rightarrow> bool" where
  "float_ge x y = float_le y x"

text \<open>\<open>bool(x)\<close> for a float: false for the two zeros only.\<close>

definition float_truthy :: "pyfloat \<Rightarrow> bool" where
  "float_truthy x = (x \<noteq> Finite 0 \<and> x \<noteq> NegZero)"

text \<open>
  The exceptions that can leave a function of the code below. \<open>TransportError\<close> stands
  for whatever \<open>client.get\<close> raises (a refused URL, a network error, a timeout),
  \<open>DatabaseError\<close> for a failed SQLite statement (\<open>sqlite3.OperationalError\<close>).
  A \<open>ValueError\<close> of \<open>int\<close> or \<open>float\<close> is caught wherever it can arise; it shows as
  the result \<open>None\<close>.
\<close>

datatype pyerr =
    AttributeError | KeyError | IndexError | TypeError | OverflowError
  | UnicodeEncodeError | HTTPStatusError | TransportError | JSONDecodeError
  | IntegrityError | DatabaseError

section \<open>The alert table\<close>

text \<open>
  One row of the SQLite table \<open>alerts\<close>. An \<open>INTEGER\<close> column holds a signed 64-bit
  integer; \<open>alert_id\<close> and \<open>user_id\<close> are the Python ints that \<open>sqlite3\<close> returns for
  the columns \<open>id\<close> and \<open>user_id\<close>. The column \<open>active\<close> is an integer that the program
  only ever sets to 1 or 0 and only tests with \<open>active = 1\<close>, so it is a boolean here. The
  table is the list of its rows in insertion order.
\<close>

record alert =
  id_col :: "64 word"
  user_id_col :: "64 word"
  market_url :: pystr
  outcome :: pystr
  target_price :: pyfloat
  direction :: pystr
  active :: bool

type_synonym db = "alert list"

definition alert_id :: "alert \<Rightarrow> int" where
  "alert_id a = sint (id_col a)"

definition user_id :: "alert \<Rightarrow> int" where
  "user_id a = sint (user_id_col a)"

text \<open>
  What \<open>sqlite3\<close> does with the parameters of a statement. A Python int outside the
  signed 64-bit range raises \<open>OverflowError\<close>. A str is stored as UTF-8, so a str with a
  surrogate code point (55296..57343) raises \<open>UnicodeEncodeError\<close>. A float NaN is bound
  as \<open>NULL\<close>, and \<open>-0.0\<close> is stored as \<open>0.0\<close>.
\<close>

definition int64 :: "int \<Rightarrow> bool" where
  "int64 i = (- (2 ^ 63) \<le> i \<and> i < 2 ^ 63)"

definition is_scalar :: "nat \<Rightarrow> bool" where
  "is_scalar c = (c < 55296 \<or> (57343 < c \<and> c < 1114112))"

definition encodable :: "pystr \<Rightarrow> bool" where
  "encodable s = list_all is_scalar s"

definition sql_real :: "pyfloat \<Rightarrow> pyfloat option" where
  "sql_real x = (case x of NaN \<Rightarrow> None | NegZero \<Rightarrow> Some (Finite 0) | _ \<Rightarrow> Some x)"

text \<open>\<open>id INTEGER PRIMARY KEY AUTOINCREMENT\<close>: no two rows share an id, and a new row gets
  an id above every id in the table.\<close>

definition primary_key :: "db \<Rightarrow> bool" where
  "primary_key t = distinct (map alert_id t)"

definition next_id :: "db \<Rightarrow> int" where
  "next_id t = fold max (map alert_id t) 0 + 1"

text \<open>
  \<open>add_alert\<close>: the \<open>INSERT\<close>. \<open>Inl e\<close>: the call raises \<open>e\<close> and the table is as before.
  The parameters are bound in order; then the statement fails with \<open>database or disk is
  full\<close> when the ids are used up, and with \<open>NOT NULL constraint failed\<close> for a NaN target
  (\<open>target_price REAL NOT NULL\<close>).
\<close>

definition add_alert :: "db \<Rightarrow> int \<Rightarrow> pystr \<Rightarrow> pystr \<Rightarrow> pyfloat \<Rightarrow> pyerr + db" where
  "add_alert t uid url oc tp =
     (if \<not> int64 uid then Inl OverflowError
      else if \<not> encodable url \<or> \<not> encodable oc then Inl UnicodeEncodeError
      else if \<not> int64 (next_id t) then Inl DatabaseError
      else (case sql_real tp of
              None \<Rightarrow> Inl IntegrityError
            | Some v \<Rightarrow>
                Inr (t @ [\<lparr>id_col = word_of_int (next_id t), user_id_col = word_of_int uid,
                            market_url = url, outcome = oc, target_price = v,
                            direction = ustr ''>='', active = True\<rparr>])))"

text \<open>\<open>UPDATE alerts SET active = 0 WHERE id = ? AND user_id = ? AND active = 1\<close> on bound
  parameters; the result is the new table and \<open>cur.rowcount > 0\<close>.\<close>

definition update_matches :: "int \<Rightarrow> int \<Rightarrow> alert \<Rightarrow> bool" where
  "update_matches uid aid a = (alert_id a = aid \<and> user_id a = uid \<and> active a)"

definition update_active :: "db \<Rightarrow> int \<Rightarrow> int \<Rightarrow> db \<times> bool" where
  "update_active t uid aid =
     (map (\<lambda>a. if update_matches uid aid a then a\<lparr>active := False\<rparr> else a) t,
      0 < length (filter (update_matches uid aid) t))"

text \<open>\<open>deactivate_alert\<close>: the two parameters are bound, then the \<open>UPDATE\<close> runs. \<open>Inl e\<close>:
  the call raises \<open>e\<close> and the table is as before.\<close>

definition deactivate_alert :: "db \<Rightarrow> int \<Rightarrow> int \<Rightarrow> pyerr + db \<times> bool" where
  "deactivate_alert t uid aid =
     (if \<not> int64 aid \<or> \<not> int64 uid then Inl OverflowError
      else Inr (update_active t uid aid))"

text \<open>\<open>SELECT id, user_id, market_url, outcome, target_price, direction FROM alerts
  WHERE active = 1\<close>, in table order.\<close>

type_synonym row = "int \<times> int \<times> pystr \<times> pystr \<times> pyfloat \<times> pystr"

definition row_of :: "alert \<Rightarrow> row" where
  "row_of a = (alert_id a, user_id a, market_url a, outcome a, target_price a, direction a)"

definition get_all_active_alerts :: "db \<Rightarrow> row list" where
  "get_all_active_alerts t = map row_of (filter active t)"

section \<open>JSON values and the library functions the bot calls\<close>

text \<open>
  What \<open>resp.json()\<close> and \<open>json.loads\<close> return: \<open>None\<close>, a bool, an int, a float, a
  str, a list or a dict. A dict is an association list with one entry per key.
\<close>

datatype json =
    JNull | JBool bool | JInt int | JFloat pyfloat | JStr pystr
  | JList "json list" | JObj "(pystr \<times> json) list"

text \<open>Python's truth value, as used by \<open>not x\<close> and \<open>x or y\<close>.\<close>

fun truthy :: "json \<Rightarrow> bool" where
  "truthy JNull = False"
| "truthy (JBool b) = b"
| "truthy (JInt n) = (n \<noteq> 0)"
| "truthy (JFloat x) = float_truthy x"
| "truthy (JStr s) = (s \<noteq> [])"
| "truthy (JList xs) = (xs \<noteq> [])"
| "truthy (JObj kvs) = (kvs \<noteq> [])"

definition py_or :: "json \<Rightarrow> json \<Rightarrow> json" where
  "py_or x y = (if truthy x then x else y)"

text \<open>\<open>x.get(key)\<close>: only a dict has the method; a missing key gives \<open>None\<close>.\<close>

fun dict_get :: "json \<Rightarrow> pystr \<Rightarrow> pyerr + json" where
  "dict_get (JObj kvs) k = Inr (case map_of kvs k of None \<Rightarrow> JNull | Some v \<Rightarrow> v)"
| "dict_get _ k = Inl AttributeError"

text \<open>\<open>x[0]\<close>, reached in \<open>fetch_event_by_slug\<close> with a truthy \<open>x\<close>.\<close>

fun index0 :: "json \<Rightarrow> pyerr + json" where
  "index0 (JList (x # xs)) = Inr x"
| "index0 (JList []) = Inl IndexError"
| "index0 (JStr (c # cs)) = Inr (JStr [c])"
| "index0 (JStr []) = Inl IndexError"
| "index0 (JObj kvs) = Inl KeyError"
| "index0 _ = Inl TypeError"

text \<open>
  The functions of Python and of its standard library that the bot calls are
  parameters of the model, collected in one record:
  \<^item> \<open>urlparse_path url\<close> is \<open>urlparse(url).path\<close>, or the exception \<open>urlparse\<close> raises;
  \<^item> \<open>json_loads s\<close> is \<open>json.loads(s)\<close>, \<open>None\<close> when it raises;
  \<^item> \<open>int_of_str s\<close> is \<open>int(s)\<close> on a string, \<open>None\<close> for \<open>ValueError\<close>; which
    characters are digits and how many digits are accepted is the interpreter's matter;
  \<^item> \<open>float_of_str s\<close> is \<open>float(s)\<close> on a string, \<open>None\<close> for \<open>ValueError\<close>;
  \<^item> \<open>float_of_int n\<close> is \<open>float(n)\<close> on an int, \<open>None\<close> for \<open>OverflowError\<close>;
  \<^item> \<open>float_mul x y\<close> is \<open>x * y\<close> on floats, rounded as the machine rounds;
  \<^item> \<open>str_lower s\<close> is \<open>s.lower()\<close>;
  \<^item> \<open>repr_json x\<close> is \<open>str(x)\<close> for a float, a list or a dict.
\<close>

record pylib =
  urlparse_path :: "pystr \<Rightarrow> pyerr + pystr"
  json_loads :: "pystr \<Rightarrow> json option"
  int_of_str :: "pystr \<Rightarrow> int option"
  float_of_str :: "pystr \<Rightarrow> pyfloat option"
  float_of_int :: "int \<Rightarrow> pyfloat option"
  float_mul :: "pyfloat \<Rightarrow> pyfloat \<Rightarrow> pyfloat"
  str_lower :: "pystr \<Rightarrow> pystr"
  repr_json :: "json \<Rightarrow> pystr"

text \<open>\<open>str(n)\<close> for an int.\<close>

fun nat_to_str :: "nat \<Rightarrow> pystr" where
  "nat_to_str n = (if n < 10 then [48 + n] else nat_to_str (n div 10) @ [48 + n mod 10])"

declare nat_to_str.simps [simp del]

definition int_to_str :: "int \<Rightarrow> pystr" where
  "int_to_str i = (if i < 0 then 45 # nat_to_str (nat (- i)) else nat_to_str (nat i))"

text \<open>\<open>str(x)\<close>.\<close>

definition py_str :: "pylib \<Rightarrow> json \<Rightarrow> pystr" where
  "py_str L x =
     (case x of
        JStr s \<Rightarrow> s
      | JInt n \<Rightarrow> int_to_str n
      | JBool b \<Rightarrow> (if b then ustr ''True'' else ustr ''False'')
      | JNull \<Rightarrow> ustr ''None''
      | _ \<Rightarrow> repr_json L x)"

text \<open>
  \<open>float(x)\<close> inside \<open>try ... except ValueError: return None\<close>: the result is \<open>Inr None\<close>
  where the \<open>ValueError\<close> is caught, and \<open>Inl e\<close> where \<open>float\<close> raises \<open>TypeError\<close> or
  \<open>OverflowError\<close>, which the handler does not catch.
\<close>

definition float_or_none :: "pylib \<Rightarrow> json \<Rightarrow> pyerr + pyfloat option" where
  "float_or_none L x =
     (case x of
        JStr s \<Rightarrow> Inr (float_of_str L s)
      | JInt n \<Rightarrow> (case float_of_int L n of None \<Rightarrow> Inl OverflowError | Some v \<Rightarrow> Inr (Some v))
      | JFloat v \<Rightarrow> Inr (Some v)
      | JBool b \<Rightarrow> Inr (Some (Finite (if b then 1 else 0)))
      | _ \<Rightarrow> Inl TypeError)"

text \<open>
  The outcome of one HTTP GET: \<open>client.get\<close> raises (a refused URL, a connection error,
  a timeout), or a response arrives with a status code and a body; the body is given as
  \<open>resp.json()\<close> reads it, \<open>None\<close> when \<open>resp.json()\<close> raises.
\<close>

datatype http_result = TransportFailure | Response nat "json option"

section \<open>Resolving a market reference\<close>

text \<open>\<open>extract_event_slug\<close>. 47 is the slash. Any exception inside the \<open>try\<close> gives
  \<open>None\<close>.\<close>

definition path_parts :: "pystr \<Rightarrow> pystr list" where
  "path_parts path = split_on 47 (strip_where (\<lambda>c. c = 47) path)"

definition slug_of_path :: "pystr \<Rightarrow> pystr option" where
  "slug_of_path path =
     (let parts = path_parts path
      in if 2 \<le> length parts \<and> parts ! 0 = ustr ''event'' then Some (parts ! 1) else None)"

text \<open>The non-empty segments of a path: the non-empty pieces between its slashes.\<close>

definition segments :: "pystr \<Rightarrow> pystr list" where
  "segments path = filter (\<lambda>s. s \<noteq> []) (split_on 47 path)"

definition extract_event_slug :: "pylib \<Rightarrow> pystr \<Rightarrow> pystr option" where
  "extract_event_slug L url =
     (case urlparse_path L url of
        Inl e \<Rightarrow> None
      | Inr path \<Rightarrow> slug_of_path path)"

text \<open>
  \<open>fetch_event_by_slug\<close>. \<open>gamma slug\<close> is the outcome of the GET for that slug.
  \<open>raise_for_status\<close> raises unless the status is 2xx. \<open>Inl e\<close>: the call raises \<open>e\<close>;
  \<open>Inr x\<close>: it returns \<open>x\<close>, where \<open>JNull\<close> is Python's \<open>None\<close>, returned both by
  \<open>return None\<close> and by \<open>return events[0]\<close> when that element is \<open>None\<close>.
\<close>

definition is_success :: "nat \<Rightarrow> bool" where
  "is_success status = (200 \<le> status \<and> status < 300)"

definition events_of :: "json \<Rightarrow> pyerr + json" where
  "events_of data =
     (case data of
        JObj kvs \<Rightarrow> map_sum id (\<lambda>v. py_or v (JList [])) (dict_get data (ustr ''events''))
      | JList xs \<Rightarrow> Inr data
      | _ \<Rightarrow> Inr (JList []))"

definition fetch_event_by_slug :: "(pystr \<Rightarrow> http_result) \<Rightarrow> pystr \<Rightarrow> pyerr + json" where
  "fetch_event_by_slug gamma slug =
     (case gamma slug of
        TransportFailure \<Rightarrow> Inl TransportError
      | Response status body \<Rightarrow>
          if \<not> is_success status then Inl HTTPStatusError
          else (case body of
                  None \<Rightarrow> Inl JSONDecodeError
                | Some data \<Rightarrow>
                    (case events_of data of
                       Inl e \<Rightarrow> Inl e
                     | Inr events \<Rightarrow>
                         if \<not> truthy events then Inr JNull
                         else index0 events)))"

text \<open>
  The strike of one market: \<open>int(str(m.get("groupItemTitle") or "").replace(",", "").strip())\<close>,
  \<open>Inr None\<close> where the \<open>ValueError\<close> is caught.
\<close>

definition normalize_label :: "pystr \<Rightarrow> pystr" where
  "normalize_label title = strip (remove_commas title)"

definition market_strike :: "pylib \<Rightarrow> json \<Rightarrow> pyerr + int option" where
  "market_strike L m =
     (case dict_get m (ustr ''groupItemTitle'') of
        Inl e \<Rightarrow> Inl e
      | Inr t \<Rightarrow> Inr (int_of_str L (normalize_label (py_str L (py_or t (JStr []))))))"

text \<open>The loop of \<open>strike_exists_in_event\<close> over the markets.\<close>

fun strike_in_markets :: "pylib \<Rightarrow> json list \<Rightarrow> int \<Rightarrow> pyerr + bool" where
  "strike_in_markets L [] strike = Inr False"
| "strike_in_markets L (m # ms) strike =
     (case market_strike L m of
        Inl e \<Rightarrow> Inl e
      | Inr None \<Rightarrow> strike_in_markets L ms strike
      | Inr (Some v) \<Rightarrow> if v = strike then Inr True else strike_in_markets L ms strike)"

definition strike_exists_in_event ::
  "pylib \<Rightarrow> (pystr \<Rightarrow> http_result) \<Rightarrow> pystr \<Rightarrow> int \<Rightarrow> pyerr + bool" where
  "strike_exists_in_event L gamma url strike =
     (case extract_event_slug L url of
        None \<Rightarrow> Inr False
      | Some slug \<Rightarrow>
          if slug = [] then Inr False
          else (case fetch_event_by_slug gamma slug of
                  Inl e \<Rightarrow> Inl e
                | Inr event \<Rightarrow>
                    if \<not> truthy event then Inr False
                    else (case dict_get event (ustr ''markets'') of
                            Inl e \<Rightarrow> Inl e
                          | Inr mk \<Rightarrow>
                              (case py_or mk (JList []) of
                                 JList ms \<Rightarrow> strike_in_markets L ms strike
                               | _ \<Rightarrow> Inr False))))"

text \<open>
  \<open>pick_token_id_for_outcome\<close>. The strike is the first whitespace-separated part of
  the outcome, the side the second; the side is NO only for the three words below
  (the last two are the Russian words, written as code points).
\<close>

definition no_words :: "pystr list" where
  "no_words = [ustr ''no'', [1085, 1077, 1090], [1085, 1077, 1090, 1091]]"

definition outcome_strike :: "pylib \<Rightarrow> pystr \<Rightarrow> int option" where
  "outcome_strike L outcome_str =
     (case split_ws (strip outcome_str) of [] \<Rightarrow> None | p # ps \<Rightarrow> int_of_str L p)"

definition outcome_side_yes :: "pylib \<Rightarrow> pystr \<Rightarrow> bool" where
  "outcome_side_yes L outcome_str =
     (let parts = split_ws (strip outcome_str)
      in \<not> (2 \<le> length parts \<and> str_lower L (parts ! 1) \<in> set no_words))"

text \<open>The loop that looks for the market of a strike: the first market whose label
  is that integer.\<close>

fun find_market :: "pylib \<Rightarrow> json list \<Rightarrow> int \<Rightarrow> pyerr + json option" where
  "find_market L [] strike = Inr None"
| "find_market L (m # ms) strike =
     (case market_strike L m of
        Inl e \<Rightarrow> Inl e
      | Inr None \<Rightarrow> find_market L ms strike
      | Inr (Some v) \<Rightarrow> if v = strike then Inr (Some m) else find_market L ms strike)"

text \<open>From \<open>clobTokenIds\<close> of the chosen market to the token id. \<open>json.loads\<close> of a
  value that is not a string raises \<open>TypeError\<close>, caught like every exception there.\<close>

definition token_of_market :: "pylib \<Rightarrow> bool \<Rightarrow> json \<Rightarrow> pyerr + pystr option" where
  "token_of_market L side_yes m =
     (case dict_get m (ustr ''clobTokenIds'') of
        Inl e \<Rightarrow> Inl e
      | Inr raw \<Rightarrow>
          if \<not> truthy raw then Inr None
          else (case raw of
                  JStr s \<Rightarrow>
                    (case json_loads L s of
                       Some (JList ids) \<Rightarrow>
                         if length ids < 2 then Inr None
                         else Inr (Some (py_str L (if side_yes then ids ! 0 else ids ! 1)))
                     | _ \<Rightarrow> Inr None)
                | _ \<Rightarrow> Inr None))"

definition pick_token_id_for_outcome :: "pylib \<Rightarrow> json \<Rightarrow> pystr \<Rightarrow> pyerr + pystr option" where
  "pick_token_id_for_outcome L event outcome_str =
     (case dict_get event (ustr ''markets'') of
        Inl e \<Rightarrow> Inl e
      | Inr mk \<Rightarrow>
          (case py_or mk (JList []) of
             JList ms \<Rightarrow>
               if ms = [] then Inr None
               else (case outcome_strike L outcome_str of
                       None \<Rightarrow> Inr None
                     | Some strike \<Rightarrow>
                         (case find_market L ms strike of
                            Inl e \<Rightarrow> Inl e
                          | Inr None \<Rightarrow> Inr None
                          | Inr (Some m) \<Rightarrow> token_of_market L (outcome_side_yes L outcome_str) m))
           | _ \<Rightarrow> Inr None))"

text \<open>
  \<open>fetch_token_price\<close>. \<open>clob token side\<close> is the outcome of the GET of \<open>/price\<close> with
  these parameters. The worker passes \<open>BUY\<close> as the side, which \<open>side.upper()\<close> leaves as
  it is.
\<close>

definition fetch_token_price ::
  "pylib \<Rightarrow> (pystr \<Rightarrow> pystr \<Rightarrow> http_result) \<Rightarrow> pystr \<Rightarrow> pystr \<Rightarrow> pyerr + pyfloat option" where
  "fetch_token_price L clob token_id side =
     (case clob token_id side of
        TransportFailure \<Rightarrow> Inl TransportError
      | Response status body \<Rightarrow>
          if status \<noteq> 200 then Inr None
          else (case body of
                  None \<Rightarrow> Inl JSONDecodeError
                | Some data \<Rightarrow>
                    (case dict_get data (ustr ''price'') of
                       Inl e \<Rightarrow> Inl e
                     | Inr price_str \<Rightarrow>
                         if price_str = JNull then Inr None else float_or_none L price_str)))"

text \<open>Two notions used to state properties: a value is a dict; the number that a string
  of decimal digits denotes.\<close>

fun is_obj :: "json \<Rightarrow> bool" where
  "is_obj (JObj kvs) = True"
| "is_obj _ = False"

definition decimal_value :: "pystr \<Rightarrow> nat" where
  "decimal_value ds = foldl (\<lambda>acc c. 10 * acc + (c - 48)) 0 ds"

section \<open>The polling worker\<close>

text \<open>
  What the world does while one alert is processed: the answers of the two HTTP
  services to the requests made for it, whether \<open>bot.send_message\<close> raises, and whether
  the database fails in \<open>deactivate_alert\<close> (the file cannot be opened, it is locked).
\<close>

record env =
  gamma :: "pystr \<Rightarrow> http_result"
  clob :: "pystr \<Rightarrow> pystr \<Rightarrow> http_result"
  send_raises :: bool
  deactivate_raises :: bool

text \<open>
  How the processing of one alert ends; each case is one of the lines the worker prints.
  \<open>Triggered c ok\<close>: the alert fired at \<open>c\<close> cents and was deactivated, \<open>ok\<close> telling
  whether the message was delivered. \<open>Failed e\<close>: the exception \<open>e\<close> reached the outer
  handler of the loop body.
\<close>

datatype alert_result =
    NoSlug | NoEvent | NoToken | NoPrice
  | NotTriggered pyfloat | Triggered pyfloat bool | Failed pyerr

text \<open>A delivered message: recipient, alert id, market url, outcome, target and
  observed price in cents.\<close>

type_synonym notification = "int \<times> int \<times> pystr \<times> pystr \<times> pyfloat \<times> pyfloat"

text \<open>Steps of the loop body up to the price: \<open>Inl e\<close> an exception, \<open>Inr (Inl s)\<close> a
  \<open>continue\<close> with the line \<open>s\<close>, \<open>Inr (Inr p)\<close> the price in dollars.\<close>

definition alert_price :: "pylib \<Rightarrow> env \<Rightarrow> row \<Rightarrow> pyerr + (alert_result + pyfloat)" where
  "alert_price L e r =
     (case r of (aid, uid, url, oc, tp, d) \<Rightarrow>
        (case extract_event_slug L url of
           None \<Rightarrow> Inr (Inl NoSlug)
         | Some slug \<Rightarrow>
             if slug = [] then Inr (Inl NoSlug)
             else (case fetch_event_by_slug (gamma e) slug of
                     Inl x \<Rightarrow> Inl x
                   | Inr event \<Rightarrow>
                       if \<not> truthy event then Inr (Inl NoEvent)
                       else (case pick_token_id_for_outcome L event oc of
                               Inl x \<Rightarrow> Inl x
                             | Inr None \<Rightarrow> Inr (Inl NoToken)
                             | Inr (Some token_id) \<Rightarrow>
                                 if token_id = [] then Inr (Inl NoToken)
                                 else (case fetch_token_price L (clob e) token_id (ustr ''BUY'') of
                                         Inl x \<Rightarrow> Inl x
                                       | Inr None \<Rightarrow> Inr (Inl NoPrice)
                                       | Inr (Some price_usd) \<Rightarrow> Inr (Inr price_usd))))))"

text \<open>The flag \<open>should_trigger\<close>, with the comparisons of floats.\<close>

definition should_trigger :: "pystr \<Rightarrow> pyfloat \<Rightarrow> pyfloat \<Rightarrow> bool" where
  "should_trigger d current_cents target_price_cents =
     (if d = ustr ''>='' \<and> float_ge current_cents target_price_cents then True
      else if d = ustr ''<='' \<and> float_le current_cents target_price_cents then True
      else False)"

text \<open>The loop body for one row of the snapshot: the new table, the messages
  delivered, and how it ended. \<open>current_cents\<close> is \<open>price_usd * 100.0\<close>, a product of
  floats.\<close>

definition process_alert ::
  "pylib \<Rightarrow> env \<Rightarrow> db \<Rightarrow> row \<Rightarrow> db \<times> notification list \<times> alert_result" where
  "process_alert L e t r =
     (case r of (aid, uid, url, oc, tp, d) \<Rightarrow>
        (case alert_price L e r of
           Inl x \<Rightarrow> (t, [], Failed x)
         | Inr (Inl skip) \<Rightarrow> (t, [], skip)
         | Inr (Inr price_usd) \<Rightarrow>
             (let current_cents = float_mul L price_usd (Finite 100) in
              if should_trigger d current_cents tp
              then (let sent = (if send_raises e then []
                                else [(uid, aid, url, oc, tp, current_cents)])
                    in if deactivate_raises e then (t, sent, Failed DatabaseError)
                       else (case deactivate_alert t uid aid of
                               Inl x \<Rightarrow> (t, sent, Failed x)
                             | Inr (t1, ok) \<Rightarrow>
                                 (t1, sent, Triggered current_cents (\<not> send_raises e))))
              else (t, [], NotTriggered current_cents))))"

text \<open>
  The \<open>for\<close> loop over the snapshot. \<open>W i\<close> is what the world does while the alert with
  id \<open>i\<close> is processed. The result is the final table, the messages delivered, and the
  log: one entry per alert processed, in order.
\<close>

fun run_alerts ::
  "pylib \<Rightarrow> (int \<Rightarrow> env) \<Rightarrow> row list \<Rightarrow> db
     \<Rightarrow> db \<times> notification list \<times> (int \<times> alert_result) list" where
  "run_alerts L W [] t = (t, [], [])"
| "run_alerts L W (r # rs) t =
     (case process_alert L (W (fst r)) t r of
        (t1, sent1, res) \<Rightarrow>
          (case run_alerts L W rs t1 of
             (t2, sent2, lg) \<Rightarrow> (t2, sent1 @ sent2, (fst r, res) # lg)))"

text \<open>One pass of the \<open>while True\<close> loop of \<open>alerts_worker\<close>.\<close>

definition cycle ::
  "pylib \<Rightarrow> (int \<Rightarrow> env) \<Rightarrow> db \<Rightarrow> db \<times> notification list \<times> (int \<times> alert_result) list" where
  "cycle L W t = run_alerts L W (get_all_active_alerts t) t"

text \<open>
  The worker never returns; what can be observed of it is a finite run. Between two
  passes the chat handlers may add an alert or deactivate one, so a run is a list of
  these three kinds of steps; a handler that raises leaves the table as it was.
\<close>

datatype step_kind =
    Cycle "int \<Rightarrow> env"
  | UserAdd int pystr pystr pyfloat
  | UserDelete int int

fun run_steps ::
  "pylib \<Rightarrow> step_kind list \<Rightarrow> db \<Rightarrow> db \<times> notification list \<times> (int \<times> alert_result) list" where
  "run_steps L [] t = (t, [], [])"
| "run_steps L (Cycle W # ss) t =
     (case cycle L W t of
        (t1, sent1, log1) \<Rightarrow>
          (case run_steps L ss t1 of
             (t2, sent2, log2) \<Rightarrow> (t2, sent1 @ sent2, log1 @ log2)))"
| "run_steps L (UserAdd uid url oc tp # ss) t =
     (case add_alert t uid url oc tp of
        Inl x \<Rightarrow> run_steps L ss t
      | Inr t1 \<Rightarrow> run_steps L ss t1)"
| "run_steps L (UserDelete uid aid # ss) t =
     (case deactivate_alert t uid aid of
        Inl x \<Rightarrow> run_steps L ss t
      | Inr (t1, ok) \<Rightarrow> run_steps L ss t1)"

text \<open>
  Two notions used to state properties of the worker. \<open>only_deactivated t t'\<close>: the
  table \<open>t'\<close> is \<open>t\<close> with some rows deactivated and nothing else changed.
  \<open>alert_outcome L e r\<close>: how the processing of the row \<open>r\<close> ends; it is computed on the
  empty table, and does not depend on the table (lemma \<open>process_alert_outcome\<close>).
\<close>

definition only_deactivated :: "db \<Rightarrow> db \<Rightarrow> bool" where
  "only_deactivated t t' = list_all2 (\<lambda>a b. b = a \<or> b = a\<lparr>active := False\<rparr>) t t'"

definition alert_outcome :: "pylib \<Rightarrow> env \<Rightarrow> row \<Rightarrow> alert_result" where
  "alert_outcome L e r = snd (snd (process_alert L e [] r))"

section \<open>The dialogue that adds an alert\<close>

text \<open>
  \<open>user_add_state\<close> maps a user id to a dict with the key \<open>step\<close> and, once given, the
  keys \<open>market_url\<close> and \<open>outcome\<close>. Step 3 is the step that waits for the price.
\<close>

record add_state =
  step :: int
  st_market_url :: "pystr option"
  st_outcome :: "pystr option"

type_synonym add_states = "int \<Rightarrow> add_state option"

text \<open>What the handler answers; the wording of the messages is not modelled.\<close>

datatype reply =
    AskUrl | AskOutcome | AskPrice | BadNumber | BadStrike | NoSuchStrike
  | AlertAdded pystr pystr pyfloat

definition cmd_add :: "add_states \<Rightarrow> int \<Rightarrow> add_states \<times> reply" where
  "cmd_add states uid =
     (states(uid \<mapsto> \<lparr>step = 1, st_market_url = None, st_outcome = None\<rparr>), AskUrl)"

text \<open>
  Step 3 of \<open>handle_add_flow_or_default\<close>. The result is the table, the dialogue states
  and either the exception that leaves the handler or the reply.
\<close>

definition handle_price ::
  "pylib \<Rightarrow> (pystr \<Rightarrow> http_result) \<Rightarrow> db \<Rightarrow> add_states \<Rightarrow> int \<Rightarrow> add_state \<Rightarrow> pystr
     \<Rightarrow> db \<times> add_states \<times> (pyerr + reply option)" where
  "handle_price L gm t states uid st txt =
     (case float_of_str L (strip (commas_to_dots txt)) of
        None \<Rightarrow> (t, states, Inr (Some BadNumber))
      | Some tp \<Rightarrow>
          (case st_market_url st of
             None \<Rightarrow> (t, states, Inl KeyError)
           | Some url \<Rightarrow>
               (case st_outcome st of
                  None \<Rightarrow> (t, states, Inl KeyError)
                | Some oc \<Rightarrow>
                    (case outcome_strike L oc of
                       None \<Rightarrow> (t, states, Inr (Some BadStrike))
                     | Some strike \<Rightarrow>
                         (case strike_exists_in_event L gm url strike of
                            Inl x \<Rightarrow> (t, states, Inl x)
                          | Inr found \<Rightarrow>
                              if \<not> found then (t, states, Inr (Some NoSuchStrike))
                              else (case add_alert t uid url oc tp of
                                      Inl x \<Rightarrow> (t, states, Inl x)
                                    | Inr t1 \<Rightarrow>
                                        (t1, states(uid := None),
                                         Inr (Some (AlertAdded url oc tp)))))))))"

text \<open>
  \<open>handle_add_flow_or_default\<close>. \<open>msg\<close> is \<open>message.text\<close>, which is \<open>None\<close> for a
  message without text; calling a string method on it raises \<open>AttributeError\<close>.
\<close>

definition handle_add_flow_or_default ::
  "pylib \<Rightarrow> (pystr \<Rightarrow> http_result) \<Rightarrow> db \<Rightarrow> add_states \<Rightarrow> int \<Rightarrow> pystr option
     \<Rightarrow> db \<times> add_states \<times> (pyerr + reply option)" where
  "handle_add_flow_or_default L gm t states uid msg =
     (case states uid of
        None \<Rightarrow> (t, states, Inr None)
      | Some st \<Rightarrow>
          if step st = 1 then
            (case msg of
               None \<Rightarrow> (t, states, Inl AttributeError)
             | Some txt \<Rightarrow>
                 (t, states(uid \<mapsto> st\<lparr>st_market_url := Some (strip txt), step := 2\<rparr>),
                  Inr (Some AskOutcome)))
          else if step st = 2 then
            (case msg of
               None \<Rightarrow> (t, states, Inl AttributeError)
             | Some txt \<Rightarrow>
                 (t, states(uid \<mapsto> st\<lparr>st_outcome := Some (strip txt), step := 3\<rparr>),
                  Inr (Some AskPrice)))
          else if step st = 3 then
            (case msg of
               None \<Rightarrow> (t, states, Inl AttributeError)
             | Some txt \<Rightarrow> handle_price L gm t states uid st txt)
          else (t, states, Inr None))"

section \<open>Sample data\<close>

text \<open>A row with target 50 and direction \<open>>=\<close>; the ids are given as Python ints.\<close>

definition demo_alert :: "int \<Rightarrow> int \<Rightarrow> bool \<Rightarrow> alert" where
  "demo_alert aid uid act =
     \<lparr>id_col = word_of_int aid, user_id_col = word_of_int uid,
      market_url = ustr ''https://x/event/abc/abc-market'', outcome = ustr ''82000 YES'',
      target_price = Finite 50, direction = ustr ''>='', active = act\<rparr>"

text \<open>
  A small instance of the library functions, enough for the sample runs: the path of a
  URL of the form \<open>scheme://host/path?query\<close>, two JSON documents, integers and decimal
  numbers written with ASCII digits, the floats \<open>nan\<close> and \<open>inf\<close>, \<open>float\<close> of an int
  (exact up to 2^53, not rounded above, \<open>OverflowError\<close> from 2^1024 - 2^970 on), lower
  case for ASCII letters. The sample prices are
  binary fractions (0.75, 0.25, 48.5), so their products with 100 are exact and
  \<open>demo_mul\<close> needs no rounding.
\<close>

text \<open>\<open>int(s)\<close> for ASCII digits: surrounding whitespace is stripped, one sign is allowed,
  and single underscores are allowed between digits; a string of more than 4300 digits
  is refused, which is the default limit of the interpreter. 45 is the minus sign, 43
  the plus sign, 95 the underscore.\<close>

fun parse_digits :: "nat \<Rightarrow> pystr \<Rightarrow> nat option" where
  "parse_digits acc [] = None"
| "parse_digits acc [c] = (if is_digit c then Some (10 * acc + (c - 48)) else None)"
| "parse_digits acc (c # d # ds) =
     (if is_digit c
      then (if d = 95 then parse_digits (10 * acc + (c - 48)) ds
            else parse_digits (10 * acc + (c - 48)) (d # ds))
      else None)"

definition demo_int :: "pystr \<Rightarrow> int option" where
  "demo_int s =
     (if 4300 < length (filter is_digit s) then None
      else case strip s of
        [] \<Rightarrow> None
      | c # cs \<Rightarrow>
          if c = 45 then map_option (\<lambda>n. - int n) (parse_digits 0 cs)
          else if c = 43 then map_option int (parse_digits 0 cs)
          else map_option int (parse_digits 0 (c # cs)))"

definition demo_path :: "pystr \<Rightarrow> pystr" where
  "demo_path url =
     takeWhile (\<lambda>c. c \<noteq> 63 \<and> c \<noteq> 35)
       (dropWhile (\<lambda>c. c \<noteq> 47) (drop 2 (dropWhile (\<lambda>c. c \<noteq> 47) url)))"

definition demo_loads :: "pystr \<Rightarrow> json option" where
  "demo_loads s =
     (if s = ustr ''[\"111\", \"222\"]'' then Some (JList [JStr (ustr ''111''), JStr (ustr ''222'')])
      else if s = ustr ''[\"333\"]'' then Some (JList [JStr (ustr ''333'')])
      else None)"

definition demo_float :: "pystr \<Rightarrow> pyfloat option" where
  "demo_float s =
     (if strip s = ustr ''nan'' then Some NaN
      else if strip s = ustr ''inf'' then Some PosInf
      else case split_on 46 (strip s) of
        [a] \<Rightarrow> map_option (\<lambda>x. Finite (real x)) (parse_digits 0 a)
      | [a, b] \<Rightarrow>
          (case (parse_digits 0 a, parse_digits 0 b) of
             (Some x, Some y) \<Rightarrow> Some (Finite (real x + real y / 10 ^ length b))
           | _ \<Rightarrow> None)
      | _ \<Rightarrow> None)"

definition demo_mul :: "pyfloat \<Rightarrow> pyfloat \<Rightarrow> pyfloat" where
  "demo_mul x y = (case (x, y) of (Finite a, Finite b) \<Rightarrow> Finite (a * b) | _ \<Rightarrow> NaN)"

definition demo_lib :: pylib where
  "demo_lib =
     \<lparr>urlparse_path = (\<lambda>url. Inr (demo_path url)),
      json_loads = demo_loads,
      int_of_str = demo_int,
      float_of_str = demo_float,
      float_of_int = (\<lambda>n. if 2 ^ 1024 - 2 ^ 970 \<le> \<bar>n\<bar> then None else Some (Finite (real_of_int n))),
      float_mul = demo_mul,
      str_lower = map (\<lambda>c. if 65 \<le> c \<and> c \<le> 90 then c + 32 else c),
      repr_json = (\<lambda>x. ustr ''?'')\<rparr>"

text \<open>
  The same instance with the rounding of IEEE doubles at two prices. \<open>float("0.03")\<close> is
  the double 1080863910568919 / 2^55, just below 0.03, and its product with 100.0 is
  rounded to 3.0; \<open>float("0.58")\<close> is the double 5224175567749775 / 2^53, and its product
  with 100.0 is rounded to 8162774324609023 / 2^47, which Python prints as
  57.99999999999999.
\<close>

definition demo_float_rounded :: "pystr \<Rightarrow> pyfloat option" where
  "demo_float_rounded s =
     (if strip s = ustr ''0.03'' then Some (Finite (1080863910568919 / 36028797018963968))
      else if strip s = ustr ''0.58'' then Some (Finite (5224175567749775 / 9007199254740992))
      else demo_float s)"

definition demo_mul_rounded :: "pyfloat \<Rightarrow> pyfloat \<Rightarrow> pyfloat" where
  "demo_mul_rounded x y =
     (if x = Finite (1080863910568919 / 36028797018963968) \<and> y = Finite 100 then Finite 3
      else if x = Finite (5224175567749775 / 9007199254740992) \<and> y = Finite 100
      then Finite (8162774324609023 / 140737488355328)
      else demo_mul x y)"

definition demo_lib_rounded :: pylib where
  "demo_lib_rounded = demo_lib\<lparr>float_of_str := demo_float_rounded, float_mul := demo_mul_rounded\<rparr>"

text \<open>An event with the strikes 78,000 and 82,000, and the answers of the two services.\<close>

definition demo_market :: "string \<Rightarrow> string \<Rightarrow> json" where
  "demo_market title ids =
     JObj [(ustr ''groupItemTitle'', JStr (ustr title)), (ustr ''clobTokenIds'', JStr (ustr ids))]"

definition demo_markets :: "json list" where
  "demo_markets =
     [demo_market ''78,000'' ''[\"333\"]'', demo_market ''82,000'' ''[\"111\", \"222\"]'']"

definition demo_event :: json where
  "demo_event = JObj [(ustr ''slug'', JStr (ustr ''abc'')), (ustr ''markets'', JList demo_markets)]"

definition demo_gamma :: "pystr \<Rightarrow> http_result" where
  "demo_gamma slug =
     (if slug = ustr ''abc'' then Response 200 (Some (JList [demo_event]))
      else Response 200 (Some (JList [])))"

definition demo_clob :: "string \<Rightarrow> pystr \<Rightarrow> pystr \<Rightarrow> http_result" where
  "demo_clob price token_id side =
     (if token_id = ustr ''111'' \<and> side = ustr ''BUY''
      then Response 200 (Some (JObj [(ustr ''price'', JStr (ustr price))]))
      else Response 404 None)"

definition demo_env :: "string \<Rightarrow> bool \<Rightarrow> bool \<Rightarrow> env" where
  "demo_env price sr dr =
     \<lparr>gamma = demo_gamma, clob = demo_clob price, send_raises = sr, deactivate_raises = dr\<rparr>"

text \<open>A metadata service that answers 404, and one that cannot be reached.\<close>

definition demo_gamma_404 :: "pystr \<Rightarrow> http_result" where
  "demo_gamma_404 slug = Response 404 None"

definition demo_gamma_down :: "pystr \<Rightarrow> http_result" where
  "demo_gamma_down slug = TransportFailure"

text \<open>Three worlds for a pass of the worker: in the first the price is 0.75 and everything
  works; in the second sending the message raises; in the third the metadata service is
  down while alert 1 is processed.\<close>

definition demo_world :: "int \<Rightarrow> env" where
  "demo_world i = demo_env ''0.75'' False False"

definition demo_world_send_fails :: "int \<Rightarrow> env" where
  "demo_world_send_fails i = demo_env ''0.75'' True False"

definition demo_world_down_for_1 :: "int \<Rightarrow> env" where
  "demo_world_down_for_1 i =
     (if i = 1 then (demo_env ''0.75'' False False)\<lparr>gamma := demo_gamma_down\<rparr>
      else demo_env ''0.75'' False False)"

text \<open>The dialogue state of user 7 after the link and the outcome were given.\<close>

definition demo_states :: "string \<Rightarrow> add_states" where
  "demo_states oc u =
     (if u = 7
      then Some \<lparr>step = 3, st_market_url = Some (ustr ''https://x/event/abc/abc-market''),
                 st_outcome = Some (ustr oc)\<rparr>
      else None)"

text \<open>No user is in a dialogue.\<close>

definition demo_no_states :: add_states where
  "demo_no_states u = None"

section \<open>Evaluating the sample data\<close>

text \<open>The definitions to unfold when a function is run on the sample data.\<close>

lemmas eval_defs =
  ustr_def isspace_def strip_def strip_where_def split_on_def split_ws_def remove_commas_def
  commas_to_dots_def is_digit_def normalize_label_def py_or_def py_str_def
  path_parts_def slug_of_path_def extract_event_slug_def is_success_def events_of_def
  fetch_event_by_slug_def market_strike_def strike_exists_in_event_def no_words_def
  outcome_strike_def outcome_side_yes_def token_of_market_def pick_token_id_for_outcome_def
  fetch_token_price_def float_or_none_def decimal_value_def float_ge_def float_truthy_def
  int64_def encodable_def is_scalar_def sql_real_def

lemmas demo_defs =
  demo_path_def demo_loads_def demo_int_def demo_float_def demo_mul_def demo_lib_def
  demo_float_rounded_def demo_mul_rounded_def demo_lib_rounded_def
  demo_market_def demo_markets_def
  demo_event_def demo_gamma_def demo_clob_def demo_env_def demo_alert_def
  demo_gamma_404_def demo_gamma_down_def

section \<open>Properties of the alert table\<close>

lemma int64_sint: "int64 (sint (w :: 64 word))"
  using sint_range_size [of w] by (simp add: int64_def word_size)

lemma sint_word_of_int64: "int64 i \<Longrightarrow> sint (word_of_int i :: 64 word) = i"
  by (simp add: int64_def sint_sbintrunc' signed_take_bit_int_eq_self)

lemma int64_ids [simp]: "int64 (alert_id a)" "int64 (user_id a)"
  by (simp_all add: alert_id_def user_id_def int64_sint)

lemma ids_active_update [simp]:
  "alert_id (a\<lparr>active := b\<rparr>) = alert_id a" "user_id (a\<lparr>active := b\<rparr>) = user_id a"
  by (simp_all add: alert_id_def user_id_def)

lemma demo_sel [simp]:
  "- (2 ^ 63) \<le> i \<Longrightarrow> i < 2 ^ 63 \<Longrightarrow> alert_id (demo_alert i v b) = i"
  "- (2 ^ 63) \<le> v \<Longrightarrow> v < 2 ^ 63 \<Longrightarrow> user_id (demo_alert i v b) = v"
  "active (demo_alert i v b) = b"
  by (simp_all add: demo_alert_def alert_id_def user_id_def sint_word_of_int64 int64_def)

lemma demo_ids_int64 [simp]: "int64 1" "int64 2" "int64 7" "int64 8"
  by (simp_all add: int64_def)

lemma update_no_match:
  assumes "\<And>a. a \<in> set t \<Longrightarrow> \<not> update_matches uid aid a"
  shows "update_active t uid aid = (t, False)"
proof -
  have "map (\<lambda>a. if update_matches uid aid a then a\<lparr>active := False\<rparr> else a) t = t"
    using assms by (induction t) auto
  moreover have "filter (update_matches uid aid) t = []"
    using assms by (induction t) auto
  ultimately show ?thesis by (simp add: update_active_def)
qed

lemma update_result_inactive:
  assumes "a \<in> set (fst (update_active t uid aid))"
  shows "\<not> update_matches uid aid a"
proof -
  from assms obtain b where b: "b \<in> set t"
    and a: "a = (if update_matches uid aid b then b\<lparr>active := False\<rparr> else b)"
    by (auto simp: update_active_def)
  show ?thesis
  proof (cases "update_matches uid aid b")
    case True
    with a show ?thesis by (simp add: update_matches_def)
  next
    case False
    with a show ?thesis by simp
  qed
qed

lemma deactivate_Inr:
  "deactivate_alert t uid aid = Inr r \<longleftrightarrow> int64 aid \<and> int64 uid \<and> update_active t uid aid = r"
  by (auto simp: deactivate_alert_def)

lemma deactivate_Inl:
  "deactivate_alert t uid aid = Inl x \<longleftrightarrow> \<not> (int64 aid \<and> int64 uid) \<and> x = OverflowError"
  by (auto simp: deactivate_alert_def)

lemma deactivate_in_range:
  "int64 aid \<Longrightarrow> int64 uid \<Longrightarrow> deactivate_alert t uid aid = Inr (update_active t uid aid)"
  by (simp add: deactivate_alert_def)

text \<open>Outside the 64-bit integers the call raises, whatever the table is.\<close>

lemma deactivate_out_of_range:
  "\<not> (int64 uid \<and> int64 aid) \<Longrightarrow> deactivate_alert t uid aid = Inl OverflowError"
  by (auto simp: deactivate_alert_def)

text \<open>
  C9 says that the call returns false for every owner and every alert id when the alert
  is inactive or does not exist. The id 10^20 is the id of no alert, and the call does
  not return false: binding it as a parameter raises \<open>OverflowError\<close>.
\<close>

theorem deactivate_out_of_range_counterexample:
  "deactivate_alert [demo_alert 1 7 False] 7 100000000000000000000 = Inl OverflowError
   \<and> deactivate_alert [demo_alert 1 7 False] 7 100000000000000000000
       \<noteq> Inr ([demo_alert 1 7 False], False)"
  by (simp add: deactivate_alert_def int64_def)

text \<open>
  C9, as the code has it. Deactivation is idempotent for an owner and an alert id that
  fit the 64-bit integers of SQLite. When every row with the given id and owner is
  already inactive (which includes the case that there is no such row),
  \<open>deactivate_alert\<close> returns false and the table is exactly what it was, so no row is
  touched; and a second call right after a call that returned also returns false and
  changes nothing.
\<close>

theorem deactivate_idempotent:
  "(int64 uid \<and> int64 aid \<and> (\<forall>a \<in> set t. alert_id a = aid \<and> user_id a = uid \<longrightarrow> \<not> active a)
      \<longrightarrow> deactivate_alert t uid aid = Inr (t, False))
   \<and> (\<forall>t1 ok. deactivate_alert t uid aid = Inr (t1, ok)
         \<longrightarrow> deactivate_alert t1 uid aid = Inr (t1, False))"
proof (intro conjI impI allI)
  assume h: "int64 uid \<and> int64 aid
    \<and> (\<forall>a \<in> set t. alert_id a = aid \<and> user_id a = uid \<longrightarrow> \<not> active a)"
  have "update_active t uid aid = (t, False)"
  proof (rule update_no_match)
    fix a assume "a \<in> set t"
    with h show "\<not> update_matches uid aid a" by (simp add: update_matches_def)
  qed
  with h show "deactivate_alert t uid aid = Inr (t, False)"
    by (simp add: deactivate_in_range)
next
  fix t1 ok
  assume r: "deactivate_alert t uid aid = Inr (t1, ok)"
  then have rng: "int64 aid" "int64 uid" and t1: "t1 = fst (update_active t uid aid)"
    by (simp_all add: deactivate_Inr)
  have "update_active t1 uid aid = (t1, False)"
    unfolding t1 by (rule update_no_match) (rule update_result_inactive)
  with rng show "deactivate_alert t1 uid aid = Inr (t1, False)"
    by (simp add: deactivate_in_range)
qed

theorem deactivate_idempotent_witness:
  "int64 7 \<and> int64 1 \<and> \<not> active (demo_alert 1 7 False) \<and> alert_id (demo_alert 2 7 True) \<noteq> 1
   \<and> deactivate_alert [demo_alert 1 7 False, demo_alert 2 7 True] 7 1
       = Inr ([demo_alert 1 7 False, demo_alert 2 7 True], False)
   \<and> deactivate_alert [demo_alert 1 7 True] 7 1 = Inr ([demo_alert 1 7 False], True)
   \<and> deactivate_alert [demo_alert 1 7 False] 7 1 = Inr ([demo_alert 1 7 False], False)"
proof -
  have r: "int64 7" "int64 1" by (simp_all add: int64_def)
  have one: "deactivate_alert [demo_alert 1 7 True] 7 1 = Inr ([demo_alert 1 7 False], True)"
    by (simp add: deactivate_alert_def update_active_def update_matches_def int64_def)
      (simp add: demo_alert_def)
  from deactivate_idempotent [of 7 1 "[demo_alert 1 7 False, demo_alert 2 7 True]"] r
  have a: "deactivate_alert [demo_alert 1 7 False, demo_alert 2 7 True] 7 1
       = Inr ([demo_alert 1 7 False, demo_alert 2 7 True], False)" by simp
  from deactivate_idempotent [of 7 1 "[demo_alert 1 7 True]"] one
  have b: "deactivate_alert [demo_alert 1 7 False] 7 1 = Inr ([demo_alert 1 7 False], False)"
    by blast
  from r one a b show ?thesis by simp
qed

lemma update_length: "length (fst (update_active t u aid)) = length t"
  by (simp add: update_active_def)

lemma update_nth:
  "i < length t \<Longrightarrow> fst (update_active t u aid) ! i
     = (if update_matches u aid (t ! i) then (t ! i)\<lparr>active := False\<rparr> else t ! i)"
  by (simp add: update_active_def)

lemma update_ids: "map alert_id (fst (update_active t u aid)) = map alert_id t"
  by (induction t) (simp_all add: update_active_def)

lemma primary_key_empty: "primary_key []"
  by (simp add: primary_key_def)

lemma primary_key_update: "primary_key t \<Longrightarrow> primary_key (fst (update_active t u aid))"
  by (simp add: primary_key_def update_ids)

lemma primary_key_deactivate:
  "primary_key t \<Longrightarrow> deactivate_alert t u aid = Inr (t1, ok) \<Longrightarrow> primary_key t1"
  using primary_key_update [of t u aid] by (auto simp: deactivate_Inr)

lemma fold_max_ge: "(x::int) \<in> set xs \<Longrightarrow> x \<le> fold max xs m"
proof (induction xs arbitrary: m)
  case Nil
  then show ?case by simp
next
  case (Cons y ys)
  have mono: "a \<le> fold max ys a" for a :: int
  proof (induction ys arbitrary: a)
    case Nil
    show ?case by simp
  next
    case (Cons z zs)
    have "a \<le> max z a" by simp
    also have "\<dots> \<le> fold max zs (max z a)" by (rule Cons.IH)
    finally show ?case by simp
  qed
  show ?case
  proof (cases "x = y")
    case True
    have "y \<le> max y m" by simp
    also have "\<dots> \<le> fold max ys (max y m)" by (rule mono)
    finally show ?thesis using True by simp
  next
    case False
    with Cons.prems have "x \<in> set ys" by simp
    then show ?thesis using Cons.IH by simp
  qed
qed

lemma next_id_fresh: "a \<in> set t \<Longrightarrow> alert_id a < next_id t"
proof -
  assume "a \<in> set t"
  then have "alert_id a \<in> set (map alert_id t)" by simp
  then have "alert_id a \<le> fold max (map alert_id t) 0" by (rule fold_max_ge)
  then show ?thesis by (simp add: next_id_def)
qed

lemma add_alert_Inr:
  "add_alert t uid url oc tp = Inr t1 \<longleftrightarrow>
     int64 uid \<and> encodable url \<and> encodable oc \<and> int64 (next_id t) \<and> tp \<noteq> NaN
     \<and> t1 = t @ [\<lparr>id_col = word_of_int (next_id t), user_id_col = word_of_int uid,
                   market_url = url, outcome = oc,
                   target_price = (if tp = NegZero then Finite 0 else tp),
                   direction = ustr ''>='', active = True\<rparr>]"
  by (cases tp) (auto simp: add_alert_def sql_real_def)

lemma primary_key_add:
  assumes "primary_key t" and "add_alert t uid url oc tp = Inr t1"
  shows "primary_key t1"
proof -
  have "next_id t \<notin> set (map alert_id t)"
  proof
    assume "next_id t \<in> set (map alert_id t)"
    then obtain a where "a \<in> set t" "alert_id a = next_id t" by auto
    with next_id_fresh [of a t] show False by simp
  qed
  with assms show ?thesis
    by (auto simp: primary_key_def add_alert_Inr alert_id_def sint_word_of_int64)
qed

lemma primary_key_same_id:
  assumes "primary_key t" "a \<in> set t" "b \<in> set t" "alert_id a = alert_id b"
  shows "a = b"
  using assms by (auto simp: primary_key_def distinct_map dest: inj_onD)

text \<open>
  C10. Deactivation is owner-scoped. The table's ids are unique (the primary key). For
  every row that belongs to a user other than \<open>u\<close>, calling \<open>deactivate_alert\<close> with
  owner \<open>u\<close> and that row's id returns false and leaves the whole table as it was, so the
  row stays active and no field of any row changes (for a \<open>u\<close> that is no 64-bit integer
  the call raises instead of returning false, and the table is as it was all the same).
  When a call returns true, exactly one row, which had the given id and owner and was
  active, differs from before, and it differs only in its \<open>active\<close> flag, now false.
\<close>

theorem deactivate_owner_scoped:
  assumes pk: "primary_key t"
  shows "(\<forall>a \<in> set t. user_id a \<noteq> u \<longrightarrow>
            deactivate_alert t u (alert_id a)
              = (if int64 u then Inr (t, False) else Inl OverflowError))
    \<and> (\<forall>t1. deactivate_alert t u aid = Inr (t1, True) \<longrightarrow>
         (\<exists>i < length t. update_matches u aid (t ! i)
            \<and> t1 = t[i := (t ! i)\<lparr>active := False\<rparr>]))"
proof (intro conjI ballI impI allI)
  fix a assume a: "a \<in> set t" and other: "user_id a \<noteq> u"
  have "update_active t u (alert_id a) = (t, False)"
  proof (rule update_no_match)
    fix b assume b: "b \<in> set t"
    show "\<not> update_matches u (alert_id a) b"
    proof
      assume m: "update_matches u (alert_id a) b"
      then have "alert_id b = alert_id a" by (simp add: update_matches_def)
      then have "b = a" by (rule primary_key_same_id [OF pk b a])
      with m other show False by (simp add: update_matches_def)
    qed
  qed
  then show "deactivate_alert t u (alert_id a)
              = (if int64 u then Inr (t, False) else Inl OverflowError)"
    by (simp add: deactivate_alert_def)
next
  fix t1
  assume r: "deactivate_alert t u aid = Inr (t1, True)"
  then have t1: "t1 = fst (update_active t u aid)" and s: "snd (update_active t u aid)"
    by (auto simp: deactivate_Inr)
  from s have "filter (update_matches u aid) t \<noteq> []"
    by (simp add: update_active_def)
  then obtain b where b: "b \<in> set t" and mb: "update_matches u aid b"
    by (auto simp: filter_empty_conv)
  then obtain i where i: "i < length t" and bi: "t ! i = b"
    by (auto simp: in_set_conv_nth)
  have only: "\<not> update_matches u aid (t ! j)" if j: "j < length t" and ne: "j \<noteq> i" for j
  proof
    assume mj: "update_matches u aid (t ! j)"
    with mb have "alert_id (t ! j) = alert_id (t ! i)" by (simp add: bi update_matches_def)
    moreover from pk have "\<forall>m < length t. \<forall>n < length t. m \<noteq> n
        \<longrightarrow> alert_id (t ! m) \<noteq> alert_id (t ! n)"
      by (simp add: primary_key_def distinct_conv_nth)
    ultimately have "j = i" using i j by blast
    with ne show False by simp
  qed
  have "fst (update_active t u aid) = t[i := (t ! i)\<lparr>active := False\<rparr>]"
  proof (rule nth_equalityI)
    show "length (fst (update_active t u aid)) = length (t[i := (t ! i)\<lparr>active := False\<rparr>])"
      by (simp add: update_length)
  next
    fix j assume "j < length (fst (update_active t u aid))"
    then have j: "j < length t" by (simp add: update_length)
    show "fst (update_active t u aid) ! j = t[i := (t ! i)\<lparr>active := False\<rparr>] ! j"
    proof (cases "j = i")
      case True
      with i mb bi show ?thesis by (simp add: update_nth)
    next
      case False
      with only [OF j] j show ?thesis by (simp add: update_nth)
    qed
  qed
  with i mb bi t1 show "\<exists>i < length t. update_matches u aid (t ! i)
            \<and> t1 = t[i := (t ! i)\<lparr>active := False\<rparr>]"
    by blast
qed

theorem deactivate_owner_scoped_witness:
  "primary_key [demo_alert 1 7 True, demo_alert 2 8 True]
   \<and> int64 7
   \<and> deactivate_alert [demo_alert 1 7 True, demo_alert 2 8 True] 7 2
        = Inr ([demo_alert 1 7 True, demo_alert 2 8 True], False)
   \<and> deactivate_alert [demo_alert 1 7 True, demo_alert 2 8 True] 8 2
        = Inr ([demo_alert 1 7 True, demo_alert 2 8 False], True)
   \<and> (\<exists>i < length [demo_alert 1 7 True, demo_alert 2 8 True].
         update_matches 8 2 ([demo_alert 1 7 True, demo_alert 2 8 True] ! i)
         \<and> [demo_alert 1 7 True, demo_alert 2 8 False]
           = [demo_alert 1 7 True, demo_alert 2 8 True]
               [i := ([demo_alert 1 7 True, demo_alert 2 8 True] ! i)\<lparr>active := False\<rparr>])"
proof -
  let ?t = "[demo_alert 1 7 True, demo_alert 2 8 True]"
  have pk: "primary_key ?t"
    by (simp add: primary_key_def)
  have r: "int64 7" by (simp add: int64_def)
  have s: "deactivate_alert ?t 8 2 = Inr ([demo_alert 1 7 True, demo_alert 2 8 False], True)"
    by (simp add: deactivate_alert_def update_active_def update_matches_def int64_def)
      (simp add: demo_alert_def)
  have a: "demo_alert 2 8 True \<in> set ?t" "user_id (demo_alert 2 8 True) \<noteq> 7" by simp_all
  from deactivate_owner_scoped [OF pk, of 7 2] a r
  have one: "deactivate_alert ?t 7 (alert_id (demo_alert 2 8 True)) = Inr (?t, False)" by auto
  from deactivate_owner_scoped [OF pk, of 8 2] s
  have two: "\<exists>i < length ?t. update_matches 8 2 (?t ! i)
         \<and> [demo_alert 1 7 True, demo_alert 2 8 False] = ?t[i := (?t ! i)\<lparr>active := False\<rparr>]"
    by blast
  from pk r one s two show ?thesis by simp
qed

section \<open>Properties of the resolver\<close>

lemma split_aux_nonempty: "split_aux sep cur xs \<noteq> []"
  by (induction xs arbitrary: cur) auto

lemma split_aux_hd: "hd (split_aux sep cur xs) = cur @ takeWhile (\<lambda>c. c \<noteq> sep) xs"
  by (induction xs arbitrary: cur) auto

lemma split_aux_last:
  "xs \<noteq> [] \<Longrightarrow> last xs \<noteq> sep \<Longrightarrow> last (split_aux sep cur xs) \<noteq> []"
proof (induction xs arbitrary: cur)
  case Nil
  then show ?case by simp
next
  case (Cons c cs)
  show ?case
  proof (cases "cs = []")
    case True
    with Cons.prems show ?thesis by simp
  next
    case False
    with Cons.prems have l: "last cs \<noteq> sep" by simp
    from Cons.IH [OF False l] show ?thesis
      by (simp add: split_aux_nonempty)
  qed
qed

lemma split_aux_single: "length (split_aux sep cur xs) < 2 \<Longrightarrow> sep \<notin> set xs"
proof (induction xs arbitrary: cur)
  case Nil
  then show ?case by simp
next
  case (Cons c cs)
  show ?case
  proof (cases "c = sep")
    case True
    with Cons.prems split_aux_nonempty [of sep "[]" cs] show ?thesis
      by (cases "split_aux sep [] cs") auto
  next
    case False
    with Cons show ?thesis by simp
  qed
qed

lemma strip_where_hd: "strip_where P xs \<noteq> [] \<Longrightarrow> \<not> P (hd (strip_where P xs))"
proof -
  assume ne: "strip_where P xs \<noteq> []"
  let ?ys = "rev (dropWhile P xs)"
  have *: "strip_where P xs = rev (dropWhile P ?ys)" by (simp add: strip_where_def)
  with ne have d: "dropWhile P ?ys \<noteq> []" by simp
  have ys: "?ys \<noteq> []"
  proof
    assume "?ys = []"
    then have "dropWhile P ?ys = []" by (simp only: dropWhile.simps)
    with d show False by simp
  qed
  then have dx: "dropWhile P xs \<noteq> []" by simp
  have "hd (strip_where P xs) = last (dropWhile P ?ys)"
    using d by (simp add: * hd_rev)
  also have "\<dots> = last ?ys"
  proof -
    have "?ys = takeWhile P ?ys @ dropWhile P ?ys" by simp
    then have "last ?ys = last (takeWhile P ?ys @ dropWhile P ?ys)" by simp
    also have "\<dots> = last (dropWhile P ?ys)" using d by (rule last_appendR)
    finally show ?thesis by simp
  qed
  also have "\<dots> = hd (dropWhile P xs)" using dx by (simp add: last_rev)
  finally have "hd (strip_where P xs) = hd (dropWhile P xs)" .
  moreover have "\<not> P (hd (dropWhile P xs))" using dx by (rule hd_dropWhile)
  ultimately show ?thesis by simp
qed

lemma strip_where_last: "strip_where P xs \<noteq> [] \<Longrightarrow> \<not> P (last (strip_where P xs))"
proof -
  assume ne: "strip_where P xs \<noteq> []"
  let ?ys = "rev (dropWhile P xs)"
  have *: "strip_where P xs = rev (dropWhile P ?ys)" by (simp add: strip_where_def)
  with ne have d: "dropWhile P ?ys \<noteq> []" by simp
  have "last (strip_where P xs) = hd (dropWhile P ?ys)"
    using d by (simp add: * last_rev)
  moreover have "\<not> P (hd (dropWhile P ?ys))" using d by (rule hd_dropWhile)
  ultimately show ?thesis by simp
qed

text \<open>With two or more parts, the first and the last part of a stripped path are not
  empty.\<close>

lemma path_parts_ends:
  assumes "2 \<le> length (path_parts p)"
  shows "hd (path_parts p) \<noteq> [] \<and> last (path_parts p) \<noteq> []"
proof -
  let ?s = "strip_where (\<lambda>c. c = 47) p"
  have pp: "path_parts p = split_aux 47 [] ?s" by (simp add: path_parts_def split_on_def)
  have ne: "?s \<noteq> []"
  proof
    assume "?s = []"
    then have "path_parts p = [[]]" by (simp add: pp)
    with assms show False by simp
  qed
  from strip_where_hd [OF ne] have h: "hd ?s \<noteq> 47" by simp
  from strip_where_last [OF ne] have l: "last ?s \<noteq> 47" by simp
  have "hd (path_parts p) = takeWhile (\<lambda>c. c \<noteq> 47) ?s" by (simp add: pp split_aux_hd)
  moreover have "takeWhile (\<lambda>c. c \<noteq> 47) ?s \<noteq> []"
    using ne h by (cases ?s) auto
  moreover have "last (path_parts p) \<noteq> []"
    unfolding pp using ne l by (rule split_aux_last)
  ultimately show ?thesis by simp
qed

lemma two_ends_filter:
  assumes "2 \<le> length xs" "P (hd xs)" "P (last xs)"
  shows "2 \<le> length (filter P xs) \<and> hd (filter P xs) = hd xs"
proof -
  from assms(1) obtain x y zs where xs: "xs = x # zs @ [y]"
  proof (cases xs)
    case Nil
    with assms(1) show ?thesis by simp
  next
    case (Cons a as)
    with assms(1) have "as \<noteq> []" by auto
    then have "as = butlast as @ [last as]" by simp
    with Cons that show ?thesis by metis
  qed
  with assms(2,3) show ?thesis by simp
qed

lemma slug_of_path_Some:
  "slug_of_path p = (if 2 \<le> length (path_parts p) \<and> hd (path_parts p) = ustr ''event''
                     then Some (path_parts p ! 1) else None)"
proof -
  have "path_parts p \<noteq> []" by (simp add: path_parts_def split_on_def split_aux_nonempty)
  then have "path_parts p ! 0 = hd (path_parts p)" by (simp add: hd_conv_nth)
  then show ?thesis by (simp add: slug_of_path_def Let_def)
qed

lemma slug_of_path_segments:
  fixes p :: pystr
  defines "segs \<equiv> filter (\<lambda>s. s \<noteq> []) (path_parts p)"
  shows "(2 \<le> length segs \<and> hd segs = ustr ''event'' \<longrightarrow> slug_of_path p = Some (path_parts p ! 1))
       \<and> (length segs < 2 \<or> hd segs \<noteq> ustr ''event'' \<longrightarrow> slug_of_path p = None)"
proof (cases "2 \<le> length (path_parts p)")
  case True
  from path_parts_ends [OF True] two_ends_filter [OF True, of "\<lambda>s. s \<noteq> []"]
  have "2 \<le> length segs" "hd segs = hd (path_parts p)"
    by (simp_all add: segs_def)
  with True show ?thesis by (simp add: slug_of_path_Some)
next
  case False
  have "length segs \<le> length (path_parts p)" by (simp add: segs_def)
  with False have "\<not> 2 \<le> length segs" by simp
  with False show ?thesis by (simp add: slug_of_path_Some)
qed

lemma split_aux_snoc_sep: "split_aux sep cur (xs @ [sep]) = split_aux sep cur xs @ [[]]"
  by (induction xs arbitrary: cur) simp_all

lemma nonempty_parts_dropWhile:
  "filter (\<lambda>s. s \<noteq> []) (split_aux sep [] (dropWhile (\<lambda>c. c = sep) xs))
     = filter (\<lambda>s. s \<noteq> []) (split_aux sep [] xs)"
  by (induction xs) simp_all

lemma nonempty_parts_strip_right:
  "filter (\<lambda>s. s \<noteq> []) (split_aux sep cur (rev (dropWhile (\<lambda>c. c = sep) (rev xs))))
     = filter (\<lambda>s. s \<noteq> []) (split_aux sep cur xs)"
proof (induction xs rule: rev_induct)
  case Nil
  show ?case by simp
next
  case (snoc x xs)
  show ?case
  proof (cases "x = sep")
    case True
    with snoc show ?thesis by (simp add: split_aux_snoc_sep)
  next
    case False
    then show ?thesis by simp
  qed
qed

lemma nonempty_path_parts:
  "filter (\<lambda>s. s \<noteq> []) (path_parts p) = filter (\<lambda>s. s \<noteq> []) (split_on 47 p)"
  by (simp add: path_parts_def split_on_def strip_where_def nonempty_parts_strip_right
      nonempty_parts_dropWhile)

lemma second_part_is_second_segment:
  assumes "2 \<le> length (path_parts p)" and "path_parts p ! 1 \<noteq> []"
  shows "filter (\<lambda>s. s \<noteq> []) (split_on 47 p) ! 1 = path_parts p ! 1"
proof -
  from assms(1) obtain x y rest where xs: "path_parts p = x # y # rest"
    by (cases "path_parts p"; cases "tl (path_parts p)") auto
  from path_parts_ends [OF assms(1)] xs have "x \<noteq> []" by simp
  moreover from assms(2) xs have "y \<noteq> []" by simp
  ultimately have "filter (\<lambda>s. s \<noteq> []) (path_parts p) ! 1 = y" by (simp add: xs)
  then have "filter (\<lambda>s. s \<noteq> []) (split_on 47 p) ! 1 = y"
    by (simp only: nonempty_path_parts)
  with xs show ?thesis by simp
qed

text \<open>
  C5 says that the second non-empty segment is returned whenever the path has two
  non-empty segments of which the first is \<open>event\<close>. The path \<open>/event//abc\<close> has the
  two non-empty segments \<open>event\<close> and \<open>abc\<close>, and the result is the empty string:
  neither the segment \<open>abc\<close> nor \<open>None\<close>.
\<close>

theorem event_double_slash_counterexample:
  "urlparse_path demo_lib (ustr ''https://x/event//abc'') = Inr (ustr ''/event//abc'')
   \<and> segments (ustr ''/event//abc'') = [ustr ''event'', ustr ''abc'']
   \<and> slug_of_path (ustr ''/event//abc'') = Some []
   \<and> extract_event_slug demo_lib (ustr ''https://x/event//abc'') = Some []"
  by (simp add: extract_event_slug_def slug_of_path_def path_parts_def split_on_def
      segments_def strip_where_def demo_lib_def demo_path_def ustr_def)

text \<open>
  C5, as the code has it. The segments of the path are the pieces between its slashes.
  When at least two segments are non-empty and the first of them is \<open>event\<close>, the result
  is the piece that follows it, up to the next slash (the second piece of the path
  without its leading and trailing slashes, \<open>path_parts p ! 1\<close>). When a single slash
  separates \<open>event\<close> from the second non-empty segment, that piece is not empty and is
  this segment; when \<open>event\<close> is followed by two slashes, the piece is empty, and the
  empty string is the result. When fewer than two segments are non-empty or the first
  is not \<open>event\<close>, the result is \<open>None\<close>. The function raises on no input: when
  \<open>urlparse\<close> raises, the result is \<open>None\<close>.
\<close>

theorem extract_event_slug_segments:
  "(case urlparse_path L url of
      Inl e \<Rightarrow> extract_event_slug L url = None
    | Inr p \<Rightarrow>
        (2 \<le> length (segments p) \<and> hd (segments p) = ustr ''event''
         \<longrightarrow> extract_event_slug L url = Some (path_parts p ! 1)
           \<and> extract_event_slug L url
               = Some (if path_parts p ! 1 = [] then [] else segments p ! 1))
      \<and> (length (segments p) < 2 \<or> hd (segments p) \<noteq> ustr ''event''
         \<longrightarrow> extract_event_slug L url = None))"
proof (cases "urlparse_path L url")
  case (Inl e)
  then show ?thesis by (simp add: extract_event_slug_def)
next
  case (Inr p)
  then have e: "extract_event_slug L url = slug_of_path p" by (simp add: extract_event_slug_def)
  have len: "length (filter (\<lambda>s. s \<noteq> []) (split_on 47 p)) \<le> length (path_parts p)"
    unfolding nonempty_path_parts [symmetric] by simp
  have "2 \<le> length (filter (\<lambda>s. s \<noteq> []) (split_on 47 p)) \<and> path_parts p ! 1 \<noteq> []
      \<longrightarrow> path_parts p ! 1 = filter (\<lambda>s. s \<noteq> []) (split_on 47 p) ! 1"
    using second_part_is_second_segment [of p] len by auto
  with slug_of_path_segments [of p] Inr e show ?thesis
    by (auto simp: nonempty_path_parts segments_def)
qed

lemma demo_path_abc:
  "urlparse_path demo_lib (ustr ''https://x/event/abc/abc-market'') = Inr (ustr ''/event/abc/abc-market'')"
  by (simp add: demo_lib_def demo_path_def ustr_def)

lemma demo_parts_abc:
  "path_parts (ustr ''/event/abc/abc-market'') = [ustr ''event'', ustr ''abc'', ustr ''abc-market'']"
  by (simp add: path_parts_def split_on_def strip_where_def ustr_def)

lemma demo_path_markets:
  "urlparse_path demo_lib (ustr ''https://x/markets/abc'') = Inr (ustr ''/markets/abc'')"
  by (simp add: demo_lib_def demo_path_def ustr_def)

lemma demo_parts_markets:
  "path_parts (ustr ''/markets/abc'') = [ustr ''markets'', ustr ''abc'']"
  by (simp add: path_parts_def split_on_def strip_where_def ustr_def)

lemma demo_segs_abc:
  "segments (ustr ''/event/abc/abc-market'') = [ustr ''event'', ustr ''abc'', ustr ''abc-market'']"
  by (simp add: segments_def split_on_def ustr_def)

lemma demo_segs_markets:
  "segments (ustr ''/markets/abc'') = [ustr ''markets'', ustr ''abc'']"
  by (simp add: segments_def split_on_def ustr_def)

lemma demo_path_double:
  "urlparse_path demo_lib (ustr ''https://x/event//abc'') = Inr (ustr ''/event//abc'')"
  by (simp add: demo_lib_def demo_path_def ustr_def)

lemma demo_parts_double:
  "path_parts (ustr ''/event//abc'') = [ustr ''event'', [], ustr ''abc'']"
  by (simp add: path_parts_def split_on_def strip_where_def ustr_def)

lemma demo_segs_double:
  "segments (ustr ''/event//abc'') = [ustr ''event'', ustr ''abc'']"
  by (simp add: segments_def split_on_def ustr_def)

theorem extract_event_slug_segments_witness:
  "extract_event_slug demo_lib (ustr ''https://x/event/abc/abc-market'') = Some (ustr ''abc'')
   \<and> segments (ustr ''/event/abc/abc-market'') ! 1 = ustr ''abc''
   \<and> extract_event_slug demo_lib (ustr ''https://x/event//abc'') = Some []
   \<and> extract_event_slug demo_lib (ustr ''https://x/markets/abc'') = None"
  using extract_event_slug_segments [of demo_lib "ustr ''https://x/event/abc/abc-market''"]
    extract_event_slug_segments [of demo_lib "ustr ''https://x/event//abc''"]
    extract_event_slug_segments [of demo_lib "ustr ''https://x/markets/abc''"]
  by (simp add: demo_path_abc demo_parts_abc demo_path_markets demo_segs_abc demo_segs_markets
      demo_path_double demo_parts_double demo_segs_double)
    (simp add: ustr_def)





subsection \<open>Strike labels\<close>

lemma strip_where_id: "(\<And>c. c \<in> set xs \<Longrightarrow> \<not> P c) \<Longrightarrow> strip_where P xs = xs"
proof -
  assume h: "\<And>c. c \<in> set xs \<Longrightarrow> \<not> P c"
  have a: "dropWhile P ys = ys" if "\<And>c. c \<in> set ys \<Longrightarrow> \<not> P c" for ys
    using that by (cases ys) auto
  have "dropWhile P xs = xs" using h by (rule a)
  moreover have "dropWhile P (rev xs) = rev xs" using h by (intro a) simp
  ultimately show ?thesis by (simp add: strip_where_def)
qed

lemma digit_not_space: "is_digit c \<Longrightarrow> \<not> isspace c"
  by (auto simp: is_digit_def isspace_def)

lemma parse_digits_all:
  "ds \<noteq> [] \<Longrightarrow> (\<And>c. c \<in> set ds \<Longrightarrow> is_digit c)
    \<Longrightarrow> parse_digits acc ds = Some (foldl (\<lambda>a c. 10 * a + (c - 48)) acc ds)"
proof (induction acc ds rule: parse_digits.induct)
  case (1 acc)
  then show ?case by simp
next
  case (2 acc c)
  then show ?case by simp
next
  case (3 acc c d ds)
  have c: "is_digit c" and d: "is_digit d" using "3.prems"(2) by simp_all
  from d have d95: "d \<noteq> 95" by (simp add: is_digit_def)
  have "parse_digits (10 * acc + (c - 48)) (d # ds)
          = Some (foldl (\<lambda>a c. 10 * a + (c - 48)) (10 * acc + (c - 48)) (d # ds))"
    using c d95 "3.prems"(2) by (intro "3.IH"(2)) simp_all
  with c d95 show ?case by simp
qed

lemma demo_int_digits:
  assumes "ds \<noteq> []" and "\<And>c. c \<in> set ds \<Longrightarrow> is_digit c" and "length ds \<le> 4300"
  shows "demo_int ds = Some (int (decimal_value ds))"
proof -
  have s: "strip ds = ds"
    unfolding strip_def using assms(2) by (intro strip_where_id) (simp add: digit_not_space)
  from assms(1) obtain c cs where ds: "ds = c # cs" by (cases ds) auto
  with assms(2) have "is_digit c" by simp
  then have c: "c \<noteq> 45" "c \<noteq> 43" by (simp_all add: is_digit_def)
  have "parse_digits 0 ds = Some (decimal_value ds)"
    unfolding decimal_value_def using assms(1,2) by (rule parse_digits_all)
  moreover have "length (filter is_digit ds) \<le> 4300"
    using assms(3) length_filter_le [of is_digit ds] by linarith
  ultimately show ?thesis using s c ds by (simp add: demo_int_def)
qed

lemma normalize_label_commas:
  assumes "\<forall>c \<in> set label. is_digit c \<or> c = 44"
  shows "normalize_label label = filter is_digit label"
proof -
  have f: "remove_commas label = filter is_digit label"
    unfolding remove_commas_def using assms
    by (intro filter_cong) (auto simp: is_digit_def)
  have "strip (filter is_digit label) = filter is_digit label"
    unfolding strip_def by (intro strip_where_id) (simp add: digit_not_space)
  then show ?thesis by (simp add: normalize_label_def f)
qed

lemma filter_not_dropWhile: "filter (\<lambda>x. \<not> P x) (dropWhile P xs) = filter (\<lambda>x. \<not> P x) xs"
  by (induction xs) simp_all

lemma filter_not_strip_where: "filter (\<lambda>x. \<not> P x) (strip_where P xs) = filter (\<lambda>x. \<not> P x) xs"
  by (simp add: strip_where_def filter_not_dropWhile flip: rev_filter)

lemma normalize_label_keeps:
  "filter (\<lambda>x. \<not> isspace x) (normalize_label title)
     = filter (\<lambda>x. x \<noteq> 44 \<and> \<not> isspace x) title"
  by (simp add: normalize_label_def strip_def filter_not_strip_where remove_commas_def conj_commute)

lemma strip_where_inner:
  assumes "x \<in> set xs" "\<not> P x" "y \<in> set ys" "\<not> P y"
  shows "strip_where P (xs @ c # ys) = dropWhile P xs @ c # rev (dropWhile P (rev ys))"
proof -
  have 1: "dropWhile P (xs @ c # ys) = dropWhile P xs @ c # ys"
    using assms(1,2) by (intro dropWhile_append1) auto
  have "rev (dropWhile P xs @ c # ys) = rev ys @ (c # rev (dropWhile P xs))" by simp
  moreover have "dropWhile P (rev ys @ (c # rev (dropWhile P xs)))
      = dropWhile P (rev ys) @ (c # rev (dropWhile P xs))"
    using assms(3,4) by (intro dropWhile_append1 [of y]) auto
  ultimately show ?thesis by (simp add: strip_where_def 1)
qed

lemma normalize_label_inner:
  assumes "c \<noteq> 44" "x \<in> set a" "x \<noteq> 44" "\<not> isspace x" "y \<in> set b" "y \<noteq> 44" "\<not> isspace y"
  shows "normalize_label (a @ c # b)
     = dropWhile isspace (remove_commas a) @ c # rev (dropWhile isspace (rev (remove_commas b)))"
proof -
  have "remove_commas (a @ c # b) = remove_commas a @ c # remove_commas b"
    using assms(1) by (simp add: remove_commas_def)
  moreover have "x \<in> set (remove_commas a)" "y \<in> set (remove_commas b)"
    using assms by (simp_all add: remove_commas_def)
  ultimately show ?thesis
    using assms(4,7) by (simp add: normalize_label_def strip_def strip_where_inner)
qed

lemma market_strike_title:
  "dict_get m (ustr ''groupItemTitle'') = Inr (JStr title)
    \<Longrightarrow> market_strike L m = Inr (int_of_str L (normalize_label title))"
  by (cases "title = []") (simp_all add: market_strike_def py_or_def py_str_def)

subsection \<open>The two loops over the markets\<close>

lemma strike_in_markets_True:
  "strike_in_markets L ms k = Inr True \<Longrightarrow> \<exists>m \<in> set ms. market_strike L m = Inr (Some k)"
proof (induction ms)
  case Nil
  then show ?case by simp
next
  case (Cons m ms)
  show ?case
  proof (cases "market_strike L m")
    case (Inl e)
    with Cons.prems show ?thesis by simp
  next
    case (Inr v)
    show ?thesis
    proof (cases v)
      case None
      with Inr Cons show ?thesis by simp
    next
      case (Some j)
      with Inr Cons show ?thesis by (cases "j = k") simp_all
    qed
  qed
qed

lemma find_market_Some:
  "find_market L ms k = Inr (Some m) \<Longrightarrow> m \<in> set ms \<and> market_strike L m = Inr (Some k)"
proof (induction ms)
  case Nil
  then show ?case by simp
next
  case (Cons x ms)
  show ?case
  proof (cases "market_strike L x")
    case (Inl e)
    with Cons.prems show ?thesis by simp
  next
    case (Inr v)
    show ?thesis
    proof (cases v)
      case None
      with Inr Cons show ?thesis by simp
    next
      case (Some j)
      with Inr Cons show ?thesis by (cases "j = k") simp_all
    qed
  qed
qed

lemma market_strike_obj: "is_obj m \<Longrightarrow> \<exists>v. market_strike L m = Inr v"
  by (cases m) (simp_all add: market_strike_def)

lemma find_market_objs:
  "list_all is_obj ms
    \<Longrightarrow> find_market L ms k = Inr (find (\<lambda>m. market_strike L m = Inr (Some k)) ms)"
proof (induction ms)
  case Nil
  then show ?case by simp
next
  case (Cons x ms)
  then have ih: "find_market L ms k = Inr (find (\<lambda>m. market_strike L m = Inr (Some k)) ms)"
    by simp
  from Cons.prems have "is_obj x" by simp
  then obtain v where v: "market_strike L x = Inr v" using market_strike_obj by blast
  show ?case
  proof (cases v)
    case None
    with v ih show ?thesis by simp
  next
    case (Some j)
    with v ih show ?thesis by (cases "j = k") simp_all
  qed
qed

lemma strike_in_markets_skip:
  "market_strike L m = Inr None \<Longrightarrow> strike_in_markets L (m # ms) k = strike_in_markets L ms k"
  by simp

lemma find_market_skip:
  "market_strike L m = Inr None \<Longrightarrow> find_market L (m # ms) k = find_market L ms k"
  by simp

subsection \<open>Choosing the token\<close>

lemma py_or_list: "py_or mk (JList []) = JList ms \<Longrightarrow> ms \<noteq> [] \<Longrightarrow> mk = JList ms"
  by (cases "truthy mk") (simp_all add: py_or_def)

lemma token_of_market_Some:
  assumes "token_of_market L sy m = Inr (Some tok)"
  shows "\<exists>s ids. dict_get m (ustr ''clobTokenIds'') = Inr (JStr s)
           \<and> json_loads L s = Some (JList ids) \<and> 2 \<le> length ids
           \<and> tok = py_str L (if sy then ids ! 0 else ids ! 1)"
proof (cases "dict_get m (ustr ''clobTokenIds'')")
  case (Inl e)
  with assms show ?thesis by (simp add: token_of_market_def)
next
  case (Inr raw)
  show ?thesis
  proof (cases raw)
    case (JStr s)
    show ?thesis
    proof (cases "json_loads L s")
      case None
      with assms Inr JStr show ?thesis by (simp add: token_of_market_def split: if_splits)
    next
      case (Some v)
      show ?thesis
      proof (cases v)
        case (JList ids)
        with assms Inr JStr Some show ?thesis
          by (simp add: token_of_market_def split: if_splits)
      qed (use assms Inr JStr Some in \<open>simp_all add: token_of_market_def split: if_splits\<close>)
    qed
  qed (use assms Inr in \<open>simp_all add: token_of_market_def split: if_splits\<close>)
qed

lemma token_of_market_None:
  assumes "is_obj m"
    and "\<not> (\<exists>s ids. dict_get m (ustr ''clobTokenIds'') = Inr (JStr s)
           \<and> json_loads L s = Some (JList ids) \<and> 2 \<le> length ids)"
  shows "token_of_market L sy m = Inr None"
proof -
  from assms(1) obtain raw where raw: "dict_get m (ustr ''clobTokenIds'') = Inr raw"
    by (cases m) simp_all
  have "token_of_market L sy m \<noteq> Inr (Some tok)" for tok
    using token_of_market_Some [of L sy m tok] assms(2) by blast
  moreover have "token_of_market L sy m \<noteq> Inl e" for e
    using raw by (simp add: token_of_market_def split: json.splits option.splits)
  ultimately show ?thesis
  proof (cases "token_of_market L sy m")
    case (Inl e)
    with \<open>\<And>e. token_of_market L sy m \<noteq> Inl e\<close> show ?thesis by blast
  next
    case (Inr b)
    with \<open>\<And>tok. token_of_market L sy m \<noteq> Inr (Some tok)\<close> show ?thesis
      by (cases b) auto
  qed
qed

lemma pick_token_Some:
  assumes "pick_token_id_for_outcome L event oc = Inr (Some tok)"
  shows "\<exists>ms k m. dict_get event (ustr ''markets'') = Inr (JList ms)
           \<and> outcome_strike L oc = Some k \<and> find_market L ms k = Inr (Some m)
           \<and> token_of_market L (outcome_side_yes L oc) m = Inr (Some tok)"
proof (cases "dict_get event (ustr ''markets'')")
  case (Inl e)
  with assms show ?thesis by (simp add: pick_token_id_for_outcome_def)
next
  case (Inr mk)
  show ?thesis
  proof (cases "py_or mk (JList [])")
    case (JList ms)
    show ?thesis
    proof (cases "ms = []")
      case True
      with assms Inr JList show ?thesis by (simp add: pick_token_id_for_outcome_def)
    next
      case False
      with JList have mk: "mk = JList ms" by (rule py_or_list)
      show ?thesis
      proof (cases "outcome_strike L oc")
        case None
        with assms Inr JList False show ?thesis by (simp add: pick_token_id_for_outcome_def)
      next
        case (Some k)
        show ?thesis
        proof (cases "find_market L ms k")
          case (Inl e)
          with assms Inr JList False Some show ?thesis
            by (simp add: pick_token_id_for_outcome_def)
        next
          case fm: (Inr found)
          show ?thesis
          proof (cases found)
            case None
            with assms Inr JList False Some fm show ?thesis
              by (simp add: pick_token_id_for_outcome_def)
          next
            case m: (Some m)
            with assms Inr JList False Some fm
            have "token_of_market L (outcome_side_yes L oc) m = Inr (Some tok)"
              by (simp add: pick_token_id_for_outcome_def)
            with Inr mk Some fm m show ?thesis by simp
          qed
        qed
      qed
    qed
  qed (use assms Inr in \<open>simp_all add: pick_token_id_for_outcome_def\<close>)
qed

lemma pick_token_objs:
  assumes mk: "dict_get event (ustr ''markets'') = Inr (JList ms)" and objs: "list_all is_obj ms"
  shows "pick_token_id_for_outcome L event oc =
           (case outcome_strike L oc of
              None \<Rightarrow> Inr None
            | Some k \<Rightarrow>
                (case find (\<lambda>m. market_strike L m = Inr (Some k)) ms of
                   None \<Rightarrow> Inr None
                 | Some m \<Rightarrow> token_of_market L (outcome_side_yes L oc) m))"
proof (cases "ms = []")
  case True
  with mk show ?thesis
    by (simp add: pick_token_id_for_outcome_def py_or_def split: option.splits)
next
  case False
  then have "py_or (JList ms) (JList []) = JList ms" by (simp add: py_or_def)
  with mk False find_market_objs [OF objs, of L] show ?thesis
    by (simp add: pick_token_id_for_outcome_def split: option.splits)
qed

lemma pick_token_no_list:
  assumes "dict_get event (ustr ''markets'') = Inr mk" and "\<not> (\<exists>ms. mk = JList ms)"
  shows "pick_token_id_for_outcome L event oc = Inr None"
proof (cases "truthy mk")
  case True
  with assms show ?thesis
    by (cases mk) (simp_all add: pick_token_id_for_outcome_def py_or_def)
next
  case False
  with assms show ?thesis
    by (simp add: pick_token_id_for_outcome_def py_or_def)
qed

text \<open>
  C2. \<open>pick_token_id_for_outcome\<close> on any event and outcome.
  \<^item> Whenever it returns a token, the leading token of the outcome is an integer \<open>k\<close>, and
    the token comes from the first market of the event whose normalized label is the
    integer \<open>k\<close> itself; that market's \<open>clobTokenIds\<close> decodes to a list of at least two
    ids, and the result is \<open>str\<close> of the id at index 0 for YES and at index 1 for NO.
  \<^item> For an event whose markets are dicts, the result is \<open>None\<close> when the outcome has
    no leading integer, when no market has exactly that strike, and when the first
    matching market has a missing, undecodable or too short id pair: no other market is
    tried. It is also \<open>None\<close> when the event's \<open>markets\<close> is not a list.
  \<^item> The side is YES when the outcome has no second token, or when the second token in
    lower case is none of the NO words.
\<close>

theorem pick_token_exact_match:
  "(\<forall>tok. pick_token_id_for_outcome L event oc = Inr (Some tok) \<longrightarrow>
      (\<exists>ms k m s ids.
          dict_get event (ustr ''markets'') = Inr (JList ms) \<and> outcome_strike L oc = Some k
        \<and> find_market L ms k = Inr (Some m) \<and> m \<in> set ms \<and> market_strike L m = Inr (Some k)
        \<and> dict_get m (ustr ''clobTokenIds'') = Inr (JStr s)
        \<and> json_loads L s = Some (JList ids) \<and> 2 \<le> length ids
        \<and> tok = py_str L (if outcome_side_yes L oc then ids ! 0 else ids ! 1)))
   \<and> (dict_get event (ustr ''markets'') = Inr (JList ms) \<and> list_all is_obj ms \<longrightarrow>
        (outcome_strike L oc = None \<longrightarrow> pick_token_id_for_outcome L event oc = Inr None)
      \<and> (\<forall>k. outcome_strike L oc = Some k \<and> (\<forall>m \<in> set ms. market_strike L m \<noteq> Inr (Some k))
            \<longrightarrow> pick_token_id_for_outcome L event oc = Inr None)
      \<and> (\<forall>k m. outcome_strike L oc = Some k
              \<and> find (\<lambda>m. market_strike L m = Inr (Some k)) ms = Some m
              \<and> \<not> (\<exists>s ids. dict_get m (ustr ''clobTokenIds'') = Inr (JStr s)
                      \<and> json_loads L s = Some (JList ids) \<and> 2 \<le> length ids)
            \<longrightarrow> pick_token_id_for_outcome L event oc = Inr None))
   \<and> (\<forall>mk. dict_get event (ustr ''markets'') = Inr mk \<and> \<not> (\<exists>ms. mk = JList ms)
         \<longrightarrow> pick_token_id_for_outcome L event oc = Inr None)
   \<and> (length (split_ws (strip oc)) < 2 \<longrightarrow> outcome_side_yes L oc)
   \<and> (2 \<le> length (split_ws (strip oc)) \<longrightarrow>
         (outcome_side_yes L oc \<longleftrightarrow> str_lower L (split_ws (strip oc) ! 1) \<notin> set no_words))"
proof (intro conjI allI impI)
  fix tok assume "pick_token_id_for_outcome L event oc = Inr (Some tok)"
  from pick_token_Some [OF this] obtain ms k m where
    a: "dict_get event (ustr ''markets'') = Inr (JList ms)" "outcome_strike L oc = Some k"
       "find_market L ms k = Inr (Some m)"
       "token_of_market L (outcome_side_yes L oc) m = Inr (Some tok)" by blast
  from find_market_Some [OF a(3)] token_of_market_Some [OF a(4)] a(1,2,3)
  show "\<exists>ms k m s ids.
          dict_get event (ustr ''markets'') = Inr (JList ms) \<and> outcome_strike L oc = Some k
        \<and> find_market L ms k = Inr (Some m) \<and> m \<in> set ms \<and> market_strike L m = Inr (Some k)
        \<and> dict_get m (ustr ''clobTokenIds'') = Inr (JStr s)
        \<and> json_loads L s = Some (JList ids) \<and> 2 \<le> length ids
        \<and> tok = py_str L (if outcome_side_yes L oc then ids ! 0 else ids ! 1)"
    by blast
next
  assume h: "dict_get event (ustr ''markets'') = Inr (JList ms) \<and> list_all is_obj ms"
    and "outcome_strike L oc = None"
  with pick_token_objs [of event ms L oc]
  show "pick_token_id_for_outcome L event oc = Inr None" by simp
next
  fix k
  assume h: "dict_get event (ustr ''markets'') = Inr (JList ms) \<and> list_all is_obj ms"
    and k: "outcome_strike L oc = Some k \<and> (\<forall>m \<in> set ms. market_strike L m \<noteq> Inr (Some k))"
  then have "find (\<lambda>m. market_strike L m = Inr (Some k)) ms = None"
    by (simp add: find_None_iff)
  with h k pick_token_objs [of event ms L oc]
  show "pick_token_id_for_outcome L event oc = Inr None" by simp
next
  fix k m
  assume h: "dict_get event (ustr ''markets'') = Inr (JList ms) \<and> list_all is_obj ms"
    and k: "outcome_strike L oc = Some k
              \<and> find (\<lambda>m. market_strike L m = Inr (Some k)) ms = Some m
              \<and> \<not> (\<exists>s ids. dict_get m (ustr ''clobTokenIds'') = Inr (JStr s)
                      \<and> json_loads L s = Some (JList ids) \<and> 2 \<le> length ids)"
  then have "m \<in> set ms" by (auto simp: find_Some_iff)
  with h have "is_obj m" by (simp add: list_all_iff)
  with k have "token_of_market L (outcome_side_yes L oc) m = Inr None"
    by (intro token_of_market_None) simp_all
  with h k pick_token_objs [of event ms L oc]
  show "pick_token_id_for_outcome L event oc = Inr None" by simp
next
  fix mk
  assume "dict_get event (ustr ''markets'') = Inr mk \<and> \<not> (\<exists>ms. mk = JList ms)"
  then show "pick_token_id_for_outcome L event oc = Inr None"
    using pick_token_no_list by blast
next
  assume "length (split_ws (strip oc)) < 2"
  then show "outcome_side_yes L oc" by (simp add: outcome_side_yes_def Let_def)
next
  assume "2 \<le> length (split_ws (strip oc))"
  then show "outcome_side_yes L oc \<longleftrightarrow> str_lower L (split_ws (strip oc) ! 1) \<notin> set no_words"
    by (simp add: outcome_side_yes_def Let_def)
qed

lemma demo_event_markets:
  "dict_get demo_event (ustr ''markets'') = Inr (JList demo_markets)"
  by (simp add: demo_event_def ustr_def)

lemma demo_markets_objs: "list_all is_obj demo_markets"
  by (simp add: demo_markets_def demo_market_def)

lemma demo_markets_strikes:
  "map (market_strike demo_lib) demo_markets = [Inr (Some 78000), Inr (Some 82000)]"
  by (simp add: eval_defs demo_defs)

theorem pick_token_exact_match_witness:
  "pick_token_id_for_outcome demo_lib demo_event (ustr ''82000 YES'') = Inr (Some (ustr ''111''))
   \<and> pick_token_id_for_outcome demo_lib demo_event (ustr ''82000 no'') = Inr (Some (ustr ''222''))
   \<and> (\<exists>m \<in> set demo_markets. market_strike demo_lib m = Inr (Some 82000))
   \<and> pick_token_id_for_outcome demo_lib demo_event (ustr ''80000 YES'') = Inr None
   \<and> pick_token_id_for_outcome demo_lib demo_event (ustr ''YES'') = Inr None
   \<and> pick_token_id_for_outcome demo_lib demo_event (ustr ''78000 YES'') = Inr None"
proof -
  have yes: "pick_token_id_for_outcome demo_lib demo_event (ustr ''82000 YES'') = Inr (Some (ustr ''111''))"
    by (simp add: eval_defs demo_defs)
  have no: "pick_token_id_for_outcome demo_lib demo_event (ustr ''82000 no'') = Inr (Some (ustr ''222''))"
    by (simp add: eval_defs demo_defs)
  have k1: "outcome_strike demo_lib (ustr ''82000 YES'') = Some 82000" by (simp add: eval_defs demo_defs)
  from pick_token_exact_match [of demo_lib demo_event "ustr ''82000 YES''" demo_markets] yes
  obtain ms k m where "dict_get demo_event (ustr ''markets'') = Inr (JList ms)"
    "outcome_strike demo_lib (ustr ''82000 YES'') = Some k" "m \<in> set ms"
    "market_strike demo_lib m = Inr (Some k)" by blast
  with demo_event_markets k1
  have ex: "\<exists>m \<in> set demo_markets. market_strike demo_lib m = Inr (Some 82000)" by auto
  have k2: "outcome_strike demo_lib (ustr ''80000 YES'') = Some 80000" by (simp add: eval_defs demo_defs)
  have none2: "\<forall>m \<in> set demo_markets. market_strike demo_lib m \<noteq> Inr (Some 80000)"
    using demo_markets_strikes by (simp add: demo_markets_def)
  from pick_token_exact_match [of demo_lib demo_event "ustr ''80000 YES''" demo_markets]
    demo_event_markets demo_markets_objs k2 none2
  have a: "pick_token_id_for_outcome demo_lib demo_event (ustr ''80000 YES'') = Inr None" by blast
  have k3: "outcome_strike demo_lib (ustr ''YES'') = None" by (simp add: eval_defs demo_defs)
  from pick_token_exact_match [of demo_lib demo_event "ustr ''YES''" demo_markets]
    demo_event_markets demo_markets_objs k3
  have b: "pick_token_id_for_outcome demo_lib demo_event (ustr ''YES'') = Inr None" by blast
  have k4: "outcome_strike demo_lib (ustr ''78000 YES'') = Some 78000" by (simp add: eval_defs demo_defs)
  have f4: "find (\<lambda>m. market_strike demo_lib m = Inr (Some 78000)) demo_markets
              = Some (demo_market ''78,000'' ''[\"333\"]'')"
    using demo_markets_strikes by (simp add: demo_markets_def)
  have bad: "\<not> (\<exists>s ids. dict_get (demo_market ''78,000'' ''[\"333\"]'') (ustr ''clobTokenIds'') = Inr (JStr s)
                      \<and> json_loads demo_lib s = Some (JList ids) \<and> 2 \<le> length ids)"
    by (simp add: eval_defs demo_defs)
  from pick_token_exact_match [of demo_lib demo_event "ustr ''78000 YES''" demo_markets]
    demo_event_markets demo_markets_objs k4 f4 bad
  have c: "pick_token_id_for_outcome demo_lib demo_event (ustr ''78000 YES'') = Inr None" by blast
  from yes no ex a b c show ?thesis by simp
qed

lemma strike_exists_True:
  assumes "strike_exists_in_event L gm url k = Inr True"
  shows "\<exists>slug event ms m. extract_event_slug L url = Some slug
           \<and> fetch_event_by_slug gm slug = Inr event
           \<and> dict_get event (ustr ''markets'') = Inr (JList ms)
           \<and> m \<in> set ms \<and> market_strike L m = Inr (Some k)"
proof (cases "extract_event_slug L url")
  case None
  with assms show ?thesis by (simp add: strike_exists_in_event_def)
next
  case (Some slug)
  show ?thesis
  proof (cases "fetch_event_by_slug gm slug")
    case (Inl e)
    with assms Some show ?thesis by (simp add: strike_exists_in_event_def split: if_splits)
  next
    case (Inr event)
    show ?thesis
    proof (cases "dict_get event (ustr ''markets'')")
      case (Inl e)
      with assms Some Inr show ?thesis
        by (simp add: strike_exists_in_event_def split: if_splits)
    next
      case mk: (Inr mk)
      show ?thesis
      proof (cases "py_or mk (JList [])")
        case (JList ms)
        with assms Some Inr mk have s: "strike_in_markets L ms k = Inr True"
          by (simp add: strike_exists_in_event_def split: if_splits)
        then have "ms \<noteq> []" by auto
        with JList have "mk = JList ms" by (rule py_or_list)
        with strike_in_markets_True [OF s] Some Inr mk show ?thesis by auto
      qed (use assms Some Inr mk in \<open>simp_all add: strike_exists_in_event_def split: if_splits\<close>)
    qed
  qed
qed

text \<open>
  C7 says that any non-digit separator is stripped from a label. The code removes only
  commas (and surrounding whitespace): a label grouped with full stops or with a space
  is left as it is, \<open>int\<close> does not read it, and the market with that label does not
  match the strike 78000.
\<close>

theorem label_separator_counterexample:
  "normalize_label (ustr ''78.000'') = ustr ''78.000''
   \<and> normalize_label (ustr ''78 000'') = ustr ''78 000''
   \<and> int_of_str demo_lib (normalize_label (ustr ''78.000'')) = None
   \<and> int_of_str demo_lib (normalize_label (ustr ''78 000'')) = None
   \<and> strike_in_markets demo_lib [demo_market ''78.000'' ''[]''] 78000 = Inr False"
  by (simp add: eval_defs demo_defs)

text \<open>
  C7, as the code has it.
  \<^item> Of a label made of decimal digits and commas, normalization leaves the digits, and
    the strike of the market is what \<open>int\<close> reads from them; so, \<open>int\<close> reading \<open>78000\<close> as
    78000, the label \<open>78,000\<close> gives the strike 78000. The same holds for the digits of
    any script: of a label without whitespace exactly the commas are removed.
  \<^item> Nothing but commas and surrounding whitespace is removed from any label: every
    character that is neither a comma nor whitespace stays (a full stop does), and so
    does a character, whitespace or not, that has such characters on both sides (an
    inner space does).
  \<^item> A market whose label is not an integer after the commas are removed is skipped by
    both loops, and whenever \<open>strike_exists_in_event\<close> answers true or
    \<open>pick_token_id_for_outcome\<close> returns a token, some market of the event has a label
    that is exactly that integer.
\<close>

theorem comma_labels_normalize:
  "((\<forall>c \<in> set label. is_digit c \<or> c = 44) \<longrightarrow>
        normalize_label label = filter is_digit label
      \<and> (dict_get m (ustr ''groupItemTitle'') = Inr (JStr label)
           \<longrightarrow> market_strike L m = Inr (int_of_str L (filter is_digit label))))
   \<and> ((\<forall>c \<in> set label. \<not> isspace c) \<longrightarrow>
        normalize_label label = filter (\<lambda>x. x \<noteq> 44) label
      \<and> (dict_get m (ustr ''groupItemTitle'') = Inr (JStr label)
           \<longrightarrow> market_strike L m = Inr (int_of_str L (filter (\<lambda>x. x \<noteq> 44) label))))
   \<and> (int_of_str L (ustr ''78000'') = Some 78000
        \<and> dict_get m (ustr ''groupItemTitle'') = Inr (JStr (ustr ''78,000''))
      \<longrightarrow> market_strike L m = Inr (Some 78000))
   \<and> filter (\<lambda>x. \<not> isspace x) (normalize_label title)
        = filter (\<lambda>x. x \<noteq> 44 \<and> \<not> isspace x) title
   \<and> (c \<noteq> 44 \<and> (\<exists>x \<in> set a. x \<noteq> 44 \<and> \<not> isspace x) \<and> (\<exists>y \<in> set b. y \<noteq> 44 \<and> \<not> isspace y)
      \<longrightarrow> normalize_label (a @ c # b)
            = dropWhile isspace (remove_commas a) @ c
                # rev (dropWhile isspace (rev (remove_commas b))))
   \<and> (market_strike L m = Inr None \<longrightarrow>
         strike_in_markets L (m # ms) k = strike_in_markets L ms k
       \<and> find_market L (m # ms) k = find_market L ms k)
   \<and> (strike_in_markets L ms k = Inr True \<longrightarrow> (\<exists>x \<in> set ms. market_strike L x = Inr (Some k)))
   \<and> (find_market L ms k = Inr (Some x) \<longrightarrow> x \<in> set ms \<and> market_strike L x = Inr (Some k))
   \<and> (strike_exists_in_event L gm url k = Inr True \<longrightarrow>
         (\<exists>slug event xs x. extract_event_slug L url = Some slug
            \<and> fetch_event_by_slug gm slug = Inr event
            \<and> dict_get event (ustr ''markets'') = Inr (JList xs)
            \<and> x \<in> set xs \<and> market_strike L x = Inr (Some k)))
   \<and> (pick_token_id_for_outcome L event oc = Inr (Some tok) \<longrightarrow>
         (\<exists>xs j x. dict_get event (ustr ''markets'') = Inr (JList xs)
            \<and> outcome_strike L oc = Some j \<and> x \<in> set xs \<and> market_strike L x = Inr (Some j)))"
proof (intro conjI impI)
  assume h: "\<forall>c \<in> set label. is_digit c \<or> c = 44"
  then show n: "normalize_label label = filter is_digit label"
    by (rule normalize_label_commas)
  assume "dict_get m (ustr ''groupItemTitle'') = Inr (JStr label)"
  then show "market_strike L m = Inr (int_of_str L (filter is_digit label))"
    by (simp add: market_strike_title n)
next
  assume h: "\<forall>c \<in> set label. \<not> isspace c"
  have "strip (remove_commas label) = remove_commas label"
    unfolding strip_def using h by (intro strip_where_id) (simp add: remove_commas_def)
  then show n: "normalize_label label = filter (\<lambda>x. x \<noteq> 44) label"
    by (simp add: normalize_label_def remove_commas_def)
  assume "dict_get m (ustr ''groupItemTitle'') = Inr (JStr label)"
  then show "market_strike L m = Inr (int_of_str L (filter (\<lambda>x. x \<noteq> 44) label))"
    by (simp add: market_strike_title n)
next
  assume h: "int_of_str L (ustr ''78000'') = Some 78000
        \<and> dict_get m (ustr ''groupItemTitle'') = Inr (JStr (ustr ''78,000''))"
  have "normalize_label (ustr ''78,000'') = ustr ''78000''" by (simp add: eval_defs)
  with h show "market_strike L m = Inr (Some 78000)" by (simp add: market_strike_title)
next
  show "filter (\<lambda>x. \<not> isspace x) (normalize_label title)
        = filter (\<lambda>x. x \<noteq> 44 \<and> \<not> isspace x) title"
    by (rule normalize_label_keeps)
next
  assume "c \<noteq> 44 \<and> (\<exists>x \<in> set a. x \<noteq> 44 \<and> \<not> isspace x) \<and> (\<exists>y \<in> set b. y \<noteq> 44 \<and> \<not> isspace y)"
  then show "normalize_label (a @ c # b)
            = dropWhile isspace (remove_commas a) @ c
                # rev (dropWhile isspace (rev (remove_commas b)))"
    using normalize_label_inner by blast
next
  assume "strike_in_markets L ms k = Inr True"
  then show "\<exists>x \<in> set ms. market_strike L x = Inr (Some k)" by (rule strike_in_markets_True)
next
  assume "find_market L ms k = Inr (Some x)"
  then show "x \<in> set ms" "market_strike L x = Inr (Some k)"
    using find_market_Some by blast+
next
  assume "strike_exists_in_event L gm url k = Inr True"
  then show "\<exists>slug event xs x. extract_event_slug L url = Some slug
            \<and> fetch_event_by_slug gm slug = Inr event
            \<and> dict_get event (ustr ''markets'') = Inr (JList xs)
            \<and> x \<in> set xs \<and> market_strike L x = Inr (Some k)"
    by (rule strike_exists_True)
next
  assume "pick_token_id_for_outcome L event oc = Inr (Some tok)"
  from pick_token_Some [OF this] obtain xs j x where
    "dict_get event (ustr ''markets'') = Inr (JList xs)" "outcome_strike L oc = Some j"
    "find_market L xs j = Inr (Some x)" by blast
  with find_market_Some [of L xs j x]
  show "\<exists>xs j x. dict_get event (ustr ''markets'') = Inr (JList xs)
            \<and> outcome_strike L oc = Some j \<and> x \<in> set xs \<and> market_strike L x = Inr (Some j)"
    by blast
qed simp_all

theorem comma_labels_normalize_witness:
  "normalize_label (ustr ''86,000'') = ustr ''86000''
   \<and> market_strike demo_lib (demo_market ''86,000'' ''[]'') = Inr (Some 86000)
   \<and> market_strike demo_lib (demo_market ''78,000'' ''[]'') = Inr (Some 78000)
   \<and> normalize_label (ustr ''78 000'') = ustr ''78 000''
   \<and> strike_in_markets demo_lib (demo_market ''n/a'' ''[]'' # demo_markets) 82000
       = strike_in_markets demo_lib demo_markets 82000
   \<and> strike_in_markets demo_lib demo_markets 82000 = Inr True
   \<and> (\<exists>x \<in> set demo_markets. market_strike demo_lib x = Inr (Some 82000))"
proof -
  have h: "\<forall>c \<in> set (ustr ''86,000''). is_digit c \<or> c = 44"
    by (simp add: ustr_def is_digit_def)
  have d: "dict_get (demo_market ''86,000'' ''[]'') (ustr ''groupItemTitle'') = Inr (JStr (ustr ''86,000''))"
    "dict_get (demo_market ''78,000'' ''[]'') (ustr ''groupItemTitle'') = Inr (JStr (ustr ''78,000''))"
    by (simp_all add: demo_market_def ustr_def)
  have v: "filter is_digit (ustr ''86,000'') = ustr ''86000''"
    "int_of_str demo_lib (ustr ''86000'') = Some 86000"
    "int_of_str demo_lib (ustr ''78000'') = Some 78000"
    by (simp_all add: eval_defs demo_defs)
  have sp: "ustr ''78 000'' = ustr ''78'' @ 32 # ustr ''000''"
    "(32::nat) \<noteq> 44" "\<exists>x \<in> set (ustr ''78''). x \<noteq> 44 \<and> \<not> isspace x"
    "\<exists>y \<in> set (ustr ''000''). y \<noteq> 44 \<and> \<not> isspace y"
    "dropWhile isspace (remove_commas (ustr ''78'')) @ 32
       # rev (dropWhile isspace (rev (remove_commas (ustr ''000'')))) = ustr ''78 000''"
    by (simp_all add: eval_defs)
  have n: "market_strike demo_lib (demo_market ''n/a'' ''[]'') = Inr None"
    by (simp add: eval_defs demo_defs)
  have t: "strike_in_markets demo_lib demo_markets 82000 = Inr True"
    by (simp add: eval_defs demo_defs)
  from comma_labels_normalize [where label = "ustr ''86,000''" and L = demo_lib
      and m = "demo_market ''86,000'' ''[]''"] h d(1) v(1,2)
  have one: "normalize_label (ustr ''86,000'') = ustr ''86000''"
    "market_strike demo_lib (demo_market ''86,000'' ''[]'') = Inr (Some 86000)" by simp_all
  from comma_labels_normalize [where L = demo_lib and m = "demo_market ''78,000'' ''[]''"] d(2) v(3)
  have two: "market_strike demo_lib (demo_market ''78,000'' ''[]'') = Inr (Some 78000)" by blast
  from comma_labels_normalize [where a = "ustr ''78''" and c = 32 and b = "ustr ''000''"] sp
  have three: "normalize_label (ustr ''78 000'') = ustr ''78 000''" by simp
  from comma_labels_normalize [where L = demo_lib and m = "demo_market ''n/a'' ''[]''"
      and ms = demo_markets and k = 82000] n t
  have four: "strike_in_markets demo_lib (demo_market ''n/a'' ''[]'' # demo_markets) 82000
       = strike_in_markets demo_lib demo_markets 82000"
    "\<exists>x \<in> set demo_markets. market_strike demo_lib x = Inr (Some 82000)" by blast+
  from one two three four t show ?thesis by simp
qed

section \<open>Properties of the polling worker\<close>

lemma should_trigger_iff:
  "should_trigger d c tp
     \<longleftrightarrow> (d = ustr ''>='' \<and> float_ge c tp) \<or> (d = ustr ''<='' \<and> float_le c tp)"
  by (simp add: should_trigger_def)

lemma float_le_trans: "float_le x y \<Longrightarrow> float_le y z \<Longrightarrow> float_le x z"
  by (cases x; cases y; cases z) simp_all

lemma process_alert_price:
  assumes "alert_price L e (aid, uid, url, oc, tp, d) = Inr (Inr p)"
  shows "process_alert L e t (aid, uid, url, oc, tp, d) =
    (if should_trigger d (float_mul L p (Finite 100)) tp
     then (if deactivate_raises e \<or> \<not> (int64 aid \<and> int64 uid) then t
           else fst (update_active t uid aid),
           if send_raises e then [] else [(uid, aid, url, oc, tp, float_mul L p (Finite 100))],
           if deactivate_raises e then Failed DatabaseError
           else if \<not> (int64 aid \<and> int64 uid) then Failed OverflowError
           else Triggered (float_mul L p (Finite 100)) (\<not> send_raises e))
     else (t, [], NotTriggered (float_mul L p (Finite 100))))"
  using assms by (simp add: process_alert_def Let_def deactivate_alert_def case_prod_beta)

lemma process_alert_no_price:
  "alert_price L e r = Inl x \<Longrightarrow> process_alert L e t r = (t, [], Failed x)"
  "alert_price L e r = Inr (Inl s) \<Longrightarrow> process_alert L e t r = (t, [], s)"
  by (cases r; simp add: process_alert_def)+

text \<open>
  C1. For an alert whose price was fetched, \<open>current_cents\<close> is the price times 100,
  the product of two floats as the machine computes it. The alert triggers exactly when
  the direction is \<open>>=\<close> and \<open>current_cents >= target\<close>, or the direction is \<open><=\<close> and
  \<open>current_cents <= target\<close>, the comparisons being those of floats. When it triggers,
  the message is sent (delivered unless sending raises) and \<open>deactivate_alert\<close> is
  called; in every other case no message is sent and the table is left as it was. On
  finite numbers the two comparisons are the order of the reals, and a NaN on either
  side never triggers. The condition is monotone in \<open>current_cents\<close>: upwards for \<open>>=\<close>,
  downwards for \<open><=\<close>.
\<close>

theorem trigger_iff_threshold:
  assumes "alert_price L e (aid, uid, url, oc, tp, d) = Inr (Inr p)"
  shows "process_alert L e t (aid, uid, url, oc, tp, d) =
    (if (d = ustr ''>='' \<and> float_ge (float_mul L p (Finite 100)) tp)
        \<or> (d = ustr ''<='' \<and> float_le (float_mul L p (Finite 100)) tp)
     then (if deactivate_raises e
           then (t, if send_raises e then []
                    else [(uid, aid, url, oc, tp, float_mul L p (Finite 100))],
                 Failed DatabaseError)
           else (case deactivate_alert t uid aid of
                   Inl x \<Rightarrow>
                     (t, if send_raises e then []
                         else [(uid, aid, url, oc, tp, float_mul L p (Finite 100))],
                      Failed x)
                 | Inr (t1, ok) \<Rightarrow>
                     (t1, if send_raises e then []
                          else [(uid, aid, url, oc, tp, float_mul L p (Finite 100))],
                      Triggered (float_mul L p (Finite 100)) (\<not> send_raises e))))
     else (t, [], NotTriggered (float_mul L p (Finite 100))))
   \<and> (should_trigger d c tp
        \<longleftrightarrow> (d = ustr ''>='' \<and> float_ge c tp) \<or> (d = ustr ''<='' \<and> float_le c tp))
   \<and> (float_ge (Finite x) (Finite y) \<longleftrightarrow> x \<ge> y)
   \<and> (float_le (Finite x) (Finite y) \<longleftrightarrow> x \<le> y)
   \<and> \<not> should_trigger d NaN tp \<and> \<not> should_trigger d c NaN
   \<and> (\<forall>c'. should_trigger (ustr ''>='') c tp \<and> float_le c c' \<longrightarrow> should_trigger (ustr ''>='') c' tp)
   \<and> (\<forall>c'. should_trigger (ustr ''<='') c tp \<and> float_le c' c \<longrightarrow> should_trigger (ustr ''<='') c' tp)"
proof (intro conjI allI impI)
  show "process_alert L e t (aid, uid, url, oc, tp, d) =
    (if (d = ustr ''>='' \<and> float_ge (float_mul L p (Finite 100)) tp)
        \<or> (d = ustr ''<='' \<and> float_le (float_mul L p (Finite 100)) tp)
     then (if deactivate_raises e
           then (t, if send_raises e then []
                    else [(uid, aid, url, oc, tp, float_mul L p (Finite 100))],
                 Failed DatabaseError)
           else (case deactivate_alert t uid aid of
                   Inl x \<Rightarrow>
                     (t, if send_raises e then []
                         else [(uid, aid, url, oc, tp, float_mul L p (Finite 100))],
                      Failed x)
                 | Inr (t1, ok) \<Rightarrow>
                     (t1, if send_raises e then []
                          else [(uid, aid, url, oc, tp, float_mul L p (Finite 100))],
                      Triggered (float_mul L p (Finite 100)) (\<not> send_raises e))))
     else (t, [], NotTriggered (float_mul L p (Finite 100))))"
    using assms by (simp add: process_alert_def Let_def should_trigger_iff)
next
  show "should_trigger d c tp
        \<longleftrightarrow> (d = ustr ''>='' \<and> float_ge c tp) \<or> (d = ustr ''<='' \<and> float_le c tp)"
    by (rule should_trigger_iff)
next
  show "float_ge (Finite x) (Finite y) \<longleftrightarrow> x \<ge> y" by (simp add: float_ge_def)
next
  show "float_le (Finite x) (Finite y) \<longleftrightarrow> x \<le> y" by simp
next
  show "\<not> should_trigger d NaN tp" by (cases tp) (simp_all add: should_trigger_iff float_ge_def)
next
  show "\<not> should_trigger d c NaN" by (cases c) (simp_all add: should_trigger_iff float_ge_def)
next
  fix c'
  assume "should_trigger (ustr ''>='') c tp \<and> float_le c c'"
  then show "should_trigger (ustr ''>='') c' tp"
    using float_le_trans [of tp c c'] by (auto simp: should_trigger_iff float_ge_def ustr_def)
next
  fix c'
  assume "should_trigger (ustr ''<='') c tp \<and> float_le c' c"
  then show "should_trigger (ustr ''<='') c' tp"
    using float_le_trans [of c' c tp] by (auto simp: should_trigger_iff float_ge_def ustr_def)
qed

lemma demo_alert_price:
  "alert_price demo_lib (demo_env ''0.75'' sr dr)
     (i, u, ustr ''https://x/event/abc/abc-market'', ustr ''82000 YES'', Finite 50, ustr ''>='')
   = Inr (Inr (Finite (3 / 4)))"
  by (simp add: alert_price_def eval_defs demo_defs)

lemma demo_alert_price_low:
  "alert_price demo_lib (demo_env ''0.25'' sr dr)
     (i, u, ustr ''https://x/event/abc/abc-market'', ustr ''82000 YES'', Finite 50, ustr ''>='')
   = Inr (Inr (Finite (1 / 4)))"
  by (simp add: alert_price_def eval_defs demo_defs)

lemma demo_cents:
  "float_mul demo_lib (Finite (3 / 4)) (Finite 100) = Finite 75"
  "float_mul demo_lib (Finite (1 / 4)) (Finite 100) = Finite 25"
  by (simp_all add: demo_lib_def demo_mul_def)

lemma demo_deactivate:
  "deactivate_alert [demo_alert 1 7 True] 7 1 = Inr ([demo_alert 1 7 False], True)"
  by (simp add: deactivate_alert_def update_active_def update_matches_def int64_def)
    (simp add: demo_alert_def)

lemma demo_alert_price_003:
  "alert_price demo_lib_rounded (demo_env ''0.03'' sr dr)
     (i, u, ustr ''https://x/event/abc/abc-market'', ustr ''82000 YES'', Finite 3, ustr ''>='')
   = Inr (Inr (Finite (1080863910568919 / 36028797018963968)))"
  by (simp add: alert_price_def eval_defs demo_defs)

lemma demo_alert_price_058:
  "alert_price demo_lib_rounded (demo_env ''0.58'' sr dr)
     (i, u, ustr ''https://x/event/abc/abc-market'', ustr ''82000 YES'', Finite 58, ustr ''>='')
   = Inr (Inr (Finite (5224175567749775 / 9007199254740992)))"
  by (simp add: alert_price_def eval_defs demo_defs)

lemma demo_cents_rounded:
  "float_mul demo_lib_rounded (Finite (1080863910568919 / 36028797018963968)) (Finite 100) = Finite 3"
  "float_mul demo_lib_rounded (Finite (5224175567749775 / 9007199254740992)) (Finite 100)
     = Finite (8162774324609023 / 140737488355328)"
  by (simp_all add: demo_lib_rounded_def demo_lib_def demo_mul_rounded_def)

text \<open>
  Four runs: at the price 0.75 an alert with target 50 fires, at 0.25 it does not. With
  the rounding of doubles, at the price 0.03 an alert with target 3 fires, for the
  product is rounded to 3.0 although the double for 0.03 times 100 is below 3; and at
  the price 0.58 an alert with target 58 does not fire, for the product is rounded
  below 58.
\<close>

theorem trigger_iff_threshold_witness:
  "process_alert demo_lib (demo_env ''0.75'' False False) [demo_alert 1 7 True]
     (1, 7, ustr ''https://x/event/abc/abc-market'', ustr ''82000 YES'', Finite 50, ustr ''>='')
   = ([demo_alert 1 7 False],
      [(7, 1, ustr ''https://x/event/abc/abc-market'', ustr ''82000 YES'', Finite 50, Finite 75)],
      Triggered (Finite 75) True)
   \<and> process_alert demo_lib (demo_env ''0.25'' False False) [demo_alert 1 7 True]
     (1, 7, ustr ''https://x/event/abc/abc-market'', ustr ''82000 YES'', Finite 50, ustr ''>='')
   = ([demo_alert 1 7 True], [], NotTriggered (Finite 25))
   \<and> 1080863910568919 / 36028797018963968 * 100 < (3::real)
   \<and> process_alert demo_lib_rounded (demo_env ''0.03'' False False)
       [(demo_alert 1 7 True)\<lparr>target_price := Finite 3\<rparr>]
     (1, 7, ustr ''https://x/event/abc/abc-market'', ustr ''82000 YES'', Finite 3, ustr ''>='')
   = ([(demo_alert 1 7 False)\<lparr>target_price := Finite 3\<rparr>],
      [(7, 1, ustr ''https://x/event/abc/abc-market'', ustr ''82000 YES'', Finite 3, Finite 3)],
      Triggered (Finite 3) True)
   \<and> process_alert demo_lib_rounded (demo_env ''0.58'' False False)
       [(demo_alert 1 7 True)\<lparr>target_price := Finite 58\<rparr>]
     (1, 7, ustr ''https://x/event/abc/abc-market'', ustr ''82000 YES'', Finite 58, ustr ''>='')
   = ([(demo_alert 1 7 True)\<lparr>target_price := Finite 58\<rparr>], [],
      NotTriggered (Finite (8162774324609023 / 140737488355328)))"
proof -
  have d3: "deactivate_alert [(demo_alert 1 7 True)\<lparr>target_price := Finite 3\<rparr>] 7 1
      = Inr ([(demo_alert 1 7 False)\<lparr>target_price := Finite 3\<rparr>], True)"
    by (simp add: deactivate_alert_def update_active_def update_matches_def alert_id_def
        user_id_def demo_alert_def)
  from trigger_iff_threshold [OF demo_alert_price, of False False "[demo_alert 1 7 True]"]
  have a: "process_alert demo_lib (demo_env ''0.75'' False False) [demo_alert 1 7 True]
     (1, 7, ustr ''https://x/event/abc/abc-market'', ustr ''82000 YES'', Finite 50, ustr ''>='')
   = ([demo_alert 1 7 False],
      [(7, 1, ustr ''https://x/event/abc/abc-market'', ustr ''82000 YES'', Finite 50, Finite 75)],
      Triggered (Finite 75) True)"
    by (simp add: demo_env_def demo_cents demo_deactivate float_ge_def)
  from trigger_iff_threshold [OF demo_alert_price_low, of False False "[demo_alert 1 7 True]"]
  have b: "process_alert demo_lib (demo_env ''0.25'' False False) [demo_alert 1 7 True]
     (1, 7, ustr ''https://x/event/abc/abc-market'', ustr ''82000 YES'', Finite 50, ustr ''>='')
   = ([demo_alert 1 7 True], [], NotTriggered (Finite 25))"
    by (simp add: demo_env_def demo_cents float_ge_def) (simp add: ustr_def)
  from trigger_iff_threshold [OF demo_alert_price_003, of False False
      "[(demo_alert 1 7 True)\<lparr>target_price := Finite 3\<rparr>]"]
  have c: "process_alert demo_lib_rounded (demo_env ''0.03'' False False)
       [(demo_alert 1 7 True)\<lparr>target_price := Finite 3\<rparr>]
     (1, 7, ustr ''https://x/event/abc/abc-market'', ustr ''82000 YES'', Finite 3, ustr ''>='')
   = ([(demo_alert 1 7 False)\<lparr>target_price := Finite 3\<rparr>],
      [(7, 1, ustr ''https://x/event/abc/abc-market'', ustr ''82000 YES'', Finite 3, Finite 3)],
      Triggered (Finite 3) True)"
    by (simp add: demo_env_def demo_cents_rounded d3 float_ge_def)
  from trigger_iff_threshold [OF demo_alert_price_058, of False False
      "[(demo_alert 1 7 True)\<lparr>target_price := Finite 58\<rparr>]"]
  have d: "process_alert demo_lib_rounded (demo_env ''0.58'' False False)
       [(demo_alert 1 7 True)\<lparr>target_price := Finite 58\<rparr>]
     (1, 7, ustr ''https://x/event/abc/abc-market'', ustr ''82000 YES'', Finite 58, ustr ''>='')
   = ([(demo_alert 1 7 True)\<lparr>target_price := Finite 58\<rparr>], [],
      NotTriggered (Finite (8162774324609023 / 140737488355328)))"
    by (simp add: demo_env_def demo_cents_rounded float_ge_def) (simp add: ustr_def)
  have e: "1080863910568919 / 36028797018963968 * 100 < (3::real)" by simp
  from a b c d e show ?thesis by simp
qed

subsection \<open>The worker only deactivates\<close>

lemma only_deactivated_refl: "only_deactivated t t"
  by (simp add: only_deactivated_def list_all2_refl)

lemma only_deactivated_trans:
  assumes "only_deactivated t t1" "only_deactivated t1 t2"
  shows "only_deactivated t t2"
proof -
  have "list_all2 (\<lambda>a c. c = a \<or> c = a\<lparr>active := False\<rparr>) t t2"
  proof (rule list_all2_trans [OF _ assms(1) [unfolded only_deactivated_def]
        assms(2) [unfolded only_deactivated_def]])
    fix a b c :: alert
    assume "b = a \<or> b = a\<lparr>active := False\<rparr>" "c = b \<or> c = b\<lparr>active := False\<rparr>"
    then show "c = a \<or> c = a\<lparr>active := False\<rparr>" by auto
  qed
  then show ?thesis by (simp add: only_deactivated_def)
qed

lemma only_deactivated_update: "only_deactivated t (fst (update_active t u i))"
  by (induction t) (simp_all add: only_deactivated_def update_active_def)

lemma only_deactivated_deactivate:
  "deactivate_alert t u i = Inr (t1, ok) \<Longrightarrow> only_deactivated t t1"
  using only_deactivated_update [of t u i] by (auto simp: deactivate_Inr)

lemma only_deactivated_ids: "only_deactivated t t' \<Longrightarrow> map alert_id t' = map alert_id t"
  unfolding only_deactivated_def
  by (induction t t' rule: list_all2_induct) auto

lemma only_deactivated_active:
  "only_deactivated t t' \<Longrightarrow> b \<in> set t' \<Longrightarrow> active b \<Longrightarrow> b \<in> set t"
  unfolding only_deactivated_def
  by (induction t t' rule: list_all2_induct) auto

lemma only_deactivated_inactive:
  "only_deactivated t t' \<Longrightarrow> a \<in> set t \<Longrightarrow> \<not> active a \<Longrightarrow> a \<in> set t'"
  unfolding only_deactivated_def
  by (induction t t' rule: list_all2_induct) auto

lemma only_deactivated_primary_key:
  "only_deactivated t t' \<Longrightarrow> primary_key t \<Longrightarrow> primary_key t'"
  by (simp add: primary_key_def only_deactivated_ids)

lemma process_alert_fst:
  "fst (process_alert L e t r) = t
   \<or> fst (process_alert L e t r) = fst (update_active t (fst (snd r)) (fst r))"
proof -
  obtain aid uid url oc tp d where r: "r = (aid, uid, url, oc, tp, d)" by (cases r) auto
  show ?thesis
  proof (cases "alert_price L e r")
    case (Inl x)
    then show ?thesis by (simp add: process_alert_no_price)
  next
    case (Inr v)
    show ?thesis
    proof (cases v)
      case (Inl s)
      with Inr show ?thesis by (simp add: process_alert_no_price)
    next
      case p: (Inr p)
      with Inr r have "alert_price L e (aid, uid, url, oc, tp, d) = Inr (Inr p)" by simp
      from process_alert_price [OF this] r show ?thesis by simp
    qed
  qed
qed

lemma only_deactivated_process: "only_deactivated t (fst (process_alert L e t r))"
  using process_alert_fst [of L e t r] only_deactivated_refl [of t]
    only_deactivated_update [of t "fst (snd r)" "fst r"]
  by auto

lemma only_deactivated_run_alerts: "only_deactivated t (fst (run_alerts L W rs t))"
proof (induction rs arbitrary: t)
  case Nil
  show ?case by (simp add: only_deactivated_refl)
next
  case (Cons r rs)
  obtain t1 s1 res where p: "process_alert L (W (fst r)) t r = (t1, s1, res)"
    by (cases "process_alert L (W (fst r)) t r") auto
  obtain t2 s2 lg where q: "run_alerts L W rs t1 = (t2, s2, lg)"
    by (cases "run_alerts L W rs t1") auto
  from only_deactivated_process [of t L "W (fst r)" r] p have "only_deactivated t t1" by simp
  moreover from Cons.IH [of t1] q have "only_deactivated t1 t2" by simp
  ultimately have "only_deactivated t t2" by (rule only_deactivated_trans)
  with p q show ?case by simp
qed

lemma only_deactivated_cycle: "only_deactivated t (fst (cycle L W t))"
  by (simp add: cycle_def only_deactivated_run_alerts)

subsection \<open>What one pass does to one alert\<close>

lemma process_alert_outcome:
  "snd (snd (process_alert L e t r)) = alert_outcome L e r"
proof -
  obtain aid uid url oc tp d where r: "r = (aid, uid, url, oc, tp, d)" by (cases r) auto
  show ?thesis
  proof (cases "alert_price L e r")
    case (Inl x)
    then show ?thesis by (simp add: alert_outcome_def process_alert_no_price)
  next
    case (Inr v)
    show ?thesis
    proof (cases v)
      case (Inl s)
      with Inr show ?thesis by (simp add: alert_outcome_def process_alert_no_price)
    next
      case p: (Inr p)
      with Inr r have "alert_price L e (aid, uid, url, oc, tp, d) = Inr (Inr p)" by simp
      from process_alert_price [OF this] r show ?thesis by (simp add: alert_outcome_def)
    qed
  qed
qed

lemma process_alert_sent:
  "n \<in> set (fst (snd (process_alert L e t r))) \<Longrightarrow> fst (snd n) = fst r"
proof -
  assume n: "n \<in> set (fst (snd (process_alert L e t r)))"
  obtain aid uid url oc tp d where r: "r = (aid, uid, url, oc, tp, d)" by (cases r) auto
  show ?thesis
  proof (cases "alert_price L e r")
    case (Inl x)
    with n show ?thesis by (simp add: process_alert_no_price)
  next
    case (Inr v)
    show ?thesis
    proof (cases v)
      case (Inl s)
      with Inr n show ?thesis by (simp add: process_alert_no_price)
    next
      case p: (Inr p)
      with Inr r have "alert_price L e (aid, uid, url, oc, tp, d) = Inr (Inr p)" by simp
      from process_alert_price [OF this, of t] n r show ?thesis
        by (auto split: if_splits)
    qed
  qed
qed

lemma process_alert_not_triggered:
  assumes "\<And>c ok. alert_outcome L e r \<noteq> Triggered c ok"
  shows "fst (process_alert L e t r) = t"
proof -
  obtain aid uid url oc tp d where r: "r = (aid, uid, url, oc, tp, d)" by (cases r) auto
  show ?thesis
  proof (cases "alert_price L e r")
    case (Inl x)
    then show ?thesis by (simp add: process_alert_no_price)
  next
    case (Inr v)
    show ?thesis
    proof (cases v)
      case (Inl s)
      with Inr show ?thesis by (simp add: process_alert_no_price)
    next
      case p: (Inr p)
      with Inr r have ap: "alert_price L e (aid, uid, url, oc, tp, d) = Inr (Inr p)" by simp
      from assms [of "float_mul L p (Finite 100)" "\<not> send_raises e"] process_alert_outcome [of L e t r]
      have "snd (snd (process_alert L e t r)) \<noteq> Triggered (float_mul L p (Finite 100)) (\<not> send_raises e)"
        by simp
      with process_alert_price [OF ap, of t] r show ?thesis
        by (auto split: if_splits)
    qed
  qed
qed

lemma update_keeps_other:
  "a \<in> set t \<Longrightarrow> alert_id a \<noteq> i \<Longrightarrow> a \<in> set (fst (update_active t u i))"
proof -
  assume a: "a \<in> set t" and ne: "alert_id a \<noteq> i"
  let ?f = "\<lambda>a. if update_matches u i a then a\<lparr>active := False\<rparr> else a"
  from ne have "?f a = a" by (simp add: update_matches_def)
  moreover from a have "?f a \<in> set (map ?f t)" by (simp only: set_map) (rule imageI)
  ultimately show ?thesis by (simp add: update_active_def)
qed

lemma process_alert_keeps_other:
  "a \<in> set t \<Longrightarrow> alert_id a \<noteq> fst r \<Longrightarrow> a \<in> set (fst (process_alert L e t r))"
  using process_alert_fst [of L e t r] update_keeps_other [of a t "fst r" "fst (snd r)"]
  by auto

subsection \<open>The loop over the snapshot\<close>

lemma run_alerts_log:
  "snd (snd (run_alerts L W rs t)) = map (\<lambda>r. (fst r, alert_outcome L (W (fst r)) r)) rs"
proof (induction rs arbitrary: t)
  case Nil
  show ?case by simp
next
  case (Cons r rs)
  obtain t1 s1 res where p: "process_alert L (W (fst r)) t r = (t1, s1, res)"
    by (cases "process_alert L (W (fst r)) t r") auto
  obtain t2 s2 lg where q: "run_alerts L W rs t1 = (t2, s2, lg)"
    by (cases "run_alerts L W rs t1") auto
  from process_alert_outcome [of L "W (fst r)" t r] p
  have "res = alert_outcome L (W (fst r)) r" by simp
  moreover from Cons.IH [of t1] q
  have "lg = map (\<lambda>r. (fst r, alert_outcome L (W (fst r)) r)) rs" by simp
  ultimately show ?case using p q by simp
qed

lemma run_alerts_sent:
  "n \<in> set (fst (snd (run_alerts L W rs t))) \<Longrightarrow> fst (snd n) \<in> fst ` set rs"
proof (induction rs arbitrary: t)
  case Nil
  then show ?case by simp
next
  case (Cons r rs)
  obtain t1 s1 res where p: "process_alert L (W (fst r)) t r = (t1, s1, res)"
    by (cases "process_alert L (W (fst r)) t r") auto
  obtain t2 s2 lg where q: "run_alerts L W rs t1 = (t2, s2, lg)"
    by (cases "run_alerts L W rs t1") auto
  from Cons.prems p q have "n \<in> set s1 \<or> n \<in> set s2" by simp
  then show ?case
  proof
    assume "n \<in> set s1"
    with process_alert_sent [of n L "W (fst r)" t r] p show ?thesis by simp
  next
    assume "n \<in> set s2"
    with Cons.IH [of t1] q show ?thesis by simp
  qed
qed

lemma run_alerts_keeps:
  assumes "a \<in> set t"
    and "\<And>r c ok. r \<in> set rs \<Longrightarrow> fst r = alert_id a
           \<Longrightarrow> alert_outcome L (W (fst r)) r \<noteq> Triggered c ok"
  shows "a \<in> set (fst (run_alerts L W rs t))"
  using assms
proof (induction rs arbitrary: t)
  case Nil
  then show ?case by simp
next
  case (Cons r rs)
  obtain t1 s1 res where p: "process_alert L (W (fst r)) t r = (t1, s1, res)"
    by (cases "process_alert L (W (fst r)) t r") auto
  obtain t2 s2 lg where q: "run_alerts L W rs t1 = (t2, s2, lg)"
    by (cases "run_alerts L W rs t1") auto
  have "a \<in> set t1"
  proof (cases "fst r = alert_id a")
    case True
    then have "\<And>c ok. alert_outcome L (W (fst r)) r \<noteq> Triggered c ok"
      using Cons.prems(2) [of r] by simp
    from process_alert_not_triggered [OF this, of t] p Cons.prems(1) show ?thesis by simp
  next
    case False
    with process_alert_keeps_other [of a t r L "W (fst r)"] Cons.prems(1) p
    show ?thesis by simp
  qed
  then have "a \<in> set (fst (run_alerts L W rs t1))"
    using Cons.prems(2) by (intro Cons.IH) simp_all
  with p q show ?case by simp
qed

lemma run_alerts_deactivates:
  assumes "(aid, uid, url, oc, tp, d) \<in> set rs"
    and "alert_price L (W aid) (aid, uid, url, oc, tp, d) = Inr (Inr p)"
    and "should_trigger d (float_mul L p (Finite 100)) tp"
    and "\<not> deactivate_raises (W aid)"
    and "int64 aid" "int64 uid"
  shows "\<forall>a \<in> set (fst (run_alerts L W rs t)). \<not> update_matches uid aid a"
  using assms(1)
proof (induction rs arbitrary: t)
  case Nil
  then show ?case by simp
next
  case (Cons r rs)
  obtain t1 s1 res where p: "process_alert L (W (fst r)) t r = (t1, s1, res)"
    by (cases "process_alert L (W (fst r)) t r") auto
  obtain t2 s2 lg where q: "run_alerts L W rs t1 = (t2, s2, lg)"
    by (cases "run_alerts L W rs t1") auto
  show ?case
  proof (cases "r = (aid, uid, url, oc, tp, d)")
    case True
    with process_alert_price [OF assms(2), of t] assms(3,4,5,6) p
    have "t1 = fst (update_active t uid aid)" by simp
    then have none: "\<forall>a \<in> set t1. \<not> update_matches uid aid a"
      using update_result_inactive by blast
    have od: "only_deactivated t1 t2"
      using only_deactivated_run_alerts [of t1 L W rs] q by simp
    have "\<forall>b \<in> set t2. \<not> update_matches uid aid b"
    proof
      fix b assume b: "b \<in> set t2"
      show "\<not> update_matches uid aid b"
      proof
        assume m: "update_matches uid aid b"
        then have "active b" by (simp add: update_matches_def)
        with od b have "b \<in> set t1" by (rule only_deactivated_active)
        with none m show False by blast
      qed
    qed
    with p q show ?thesis by simp
  next
    case False
    with Cons.prems have "(aid, uid, url, oc, tp, d) \<in> set rs" by simp
    from Cons.IH [OF this, of t1] p q show ?thesis by simp
  qed
qed

subsection \<open>The snapshot\<close>

lemma snapshot_rows:
  "r \<in> set (get_all_active_alerts t) \<longleftrightarrow> (\<exists>a \<in> set t. active a \<and> r = row_of a)"
  by (auto simp: get_all_active_alerts_def)

lemma fst_row_of: "fst (row_of a) = alert_id a"
  by (simp add: row_of_def)

lemma inactive_not_in_snapshot:
  assumes "primary_key t" "a \<in> set t" "\<not> active a"
  shows "alert_id a \<notin> fst ` set (get_all_active_alerts t)"
proof
  assume "alert_id a \<in> fst ` set (get_all_active_alerts t)"
  then obtain r where r: "r \<in> set (get_all_active_alerts t)" "fst r = alert_id a" by auto
  then obtain b where b: "b \<in> set t" "active b" "alert_id b = alert_id a"
    unfolding snapshot_rows using fst_row_of by auto
  from primary_key_same_id [OF assms(1) b(1) assms(2) b(3)] b(2) assms(3)
  show False by simp
qed

lemma run_steps_inactive:
  assumes "primary_key t" "a \<in> set t" "\<not> active a"
  shows "alert_id a \<notin> fst ` set (snd (snd (run_steps L ss t)))
       \<and> alert_id a \<notin> (\<lambda>n. fst (snd n)) ` set (fst (snd (run_steps L ss t)))
       \<and> a \<in> set (fst (run_steps L ss t))"
  using assms
proof (induction L ss t rule: run_steps.induct)
  case (1 L t)
  then show ?case by simp
next
  case (2 L W ss t)
  obtain t1 s1 l1 where c: "cycle L W t = (t1, s1, l1)" by (cases "cycle L W t") auto
  obtain t2 s2 l2 where q: "run_steps L ss t1 = (t2, s2, l2)"
    by (cases "run_steps L ss t1") auto
  have fresh: "alert_id a \<notin> fst ` set (get_all_active_alerts t)"
    using "2.prems" by (rule inactive_not_in_snapshot)
  have l1: "l1 = map (\<lambda>r. (fst r, alert_outcome L (W (fst r)) r)) (get_all_active_alerts t)"
    using run_alerts_log [of L W "get_all_active_alerts t" t] c by (simp add: cycle_def)
  have "fst ` set l1 = fst ` set (get_all_active_alerts t)"
    unfolding l1 by (simp add: image_image)
  with fresh have a1: "alert_id a \<notin> fst ` set l1" by simp
  have a2: "alert_id a \<notin> (\<lambda>n. fst (snd n)) ` set s1"
  proof
    assume "alert_id a \<in> (\<lambda>n. fst (snd n)) ` set s1"
    then obtain n where n: "n \<in> set s1" "fst (snd n) = alert_id a" by auto
    from n(1) c have "n \<in> set (fst (snd (run_alerts L W (get_all_active_alerts t) t)))"
      by (simp add: cycle_def)
    from run_alerts_sent [OF this] n(2) fresh show False by simp
  qed
  have od: "only_deactivated t t1" using only_deactivated_cycle [of t L W] c by simp
  have pk1: "primary_key t1" using od "2.prems"(1) by (rule only_deactivated_primary_key)
  have in1: "a \<in> set t1" using od "2.prems"(2,3) by (rule only_deactivated_inactive)
  from "2.IH" [OF c [symmetric] refl pk1 in1 "2.prems"(3)] q
  have "alert_id a \<notin> fst ` set l2 \<and> alert_id a \<notin> (\<lambda>n. fst (snd n)) ` set s2 \<and> a \<in> set t2"
    by simp
  with a1 a2 c q show ?case by auto
next
  case (3 L uid url oc tp ss t)
  show ?case
  proof (cases "add_alert t uid url oc tp")
    case (Inl x)
    with "3.IH"(1) "3.prems" show ?thesis by simp
  next
    case (Inr t1)
    have "primary_key t1" using "3.prems"(1) Inr by (rule primary_key_add)
    moreover have "a \<in> set t1"
      using "3.prems"(2) Inr by (auto simp: add_alert_Inr)
    ultimately show ?thesis using "3.IH"(2) [OF Inr] "3.prems"(3) Inr by simp
  qed
next
  case (4 L uid aid ss t)
  show ?case
  proof (cases "deactivate_alert t uid aid")
    case (Inl x)
    with "4.IH"(1) "4.prems" show ?thesis by simp
  next
    case (Inr r)
    obtain t1 ok where r: "r = (t1, ok)" by (cases r) auto
    have od: "only_deactivated t t1"
      using Inr r by (intro only_deactivated_deactivate [of t uid aid t1 ok]) simp
    have "primary_key t1"
      using od "4.prems"(1) by (rule only_deactivated_primary_key)
    moreover have "a \<in> set t1"
      using od "4.prems"(2,3) by (rule only_deactivated_inactive)
    ultimately show ?thesis using "4.IH"(2) [OF Inr r [symmetric]] "4.prems"(3) Inr r by simp
  qed
qed

text \<open>
  C3. When an active alert is in the snapshot of a pass, its price is fetched and the
  trigger condition holds, then after the pass no row with its id and owner is active,
  whether sending the message raised or not (provided the \<open>UPDATE\<close> itself does not
  raise). And an alert that is inactive stays so through any run of passes and user
  actions: it is in no later log, no later message is about it, and its row is still in
  the table unchanged.
\<close>

theorem triggered_alert_deactivated_once:
  "((aid, uid, url, oc, tp, d) \<in> set (get_all_active_alerts t)
      \<and> alert_price L (W aid) (aid, uid, url, oc, tp, d) = Inr (Inr p)
      \<and> should_trigger d (float_mul L p (Finite 100)) tp \<and> \<not> deactivate_raises (W aid)
     \<longrightarrow> (\<forall>b \<in> set (fst (cycle L W t)). alert_id b = aid \<and> user_id b = uid \<longrightarrow> \<not> active b))
   \<and> (primary_key t \<and> a \<in> set t \<and> \<not> active a \<longrightarrow>
         alert_id a \<notin> fst ` set (snd (snd (run_steps L ss t)))
       \<and> alert_id a \<notin> (\<lambda>n. fst (snd n)) ` set (fst (snd (run_steps L ss t)))
       \<and> a \<in> set (fst (run_steps L ss t)))"
proof (intro conjI impI)
  assume h: "(aid, uid, url, oc, tp, d) \<in> set (get_all_active_alerts t)
      \<and> alert_price L (W aid) (aid, uid, url, oc, tp, d) = Inr (Inr p)
      \<and> should_trigger d (float_mul L p (Finite 100)) tp \<and> \<not> deactivate_raises (W aid)"
  then have h1: "(aid, uid, url, oc, tp, d) \<in> set (get_all_active_alerts t)"
    and h2: "alert_price L (W aid) (aid, uid, url, oc, tp, d) = Inr (Inr p)"
    and h3: "should_trigger d (float_mul L p (Finite 100)) tp" and h4: "\<not> deactivate_raises (W aid)"
    by simp_all
  from h1 have rng: "int64 aid" "int64 uid"
    by (auto simp: snapshot_rows row_of_def)
  have "\<forall>b \<in> set (fst (run_alerts L W (get_all_active_alerts t) t)).
      \<not> update_matches uid aid b"
    using h1 h2 h3 h4 rng by (rule run_alerts_deactivates)
  then show "\<forall>b \<in> set (fst (cycle L W t)). alert_id b = aid \<and> user_id b = uid \<longrightarrow> \<not> active b"
    by (simp add: cycle_def update_matches_def)
next
  assume h: "primary_key t \<and> a \<in> set t \<and> \<not> active a"
  then have *: "alert_id a \<notin> fst ` set (snd (snd (run_steps L ss t)))
       \<and> alert_id a \<notin> (\<lambda>n. fst (snd n)) ` set (fst (snd (run_steps L ss t)))
       \<and> a \<in> set (fst (run_steps L ss t))"
    using run_steps_inactive [of t a L ss] by simp
  from * show "alert_id a \<notin> fst ` set (snd (snd (run_steps L ss t)))" by simp
  from * show "alert_id a \<notin> (\<lambda>n. fst (snd n)) ` set (fst (snd (run_steps L ss t)))" by simp
  from * show "a \<in> set (fst (run_steps L ss t))" by simp
qed

lemma demo_world_send_fails_price:
  "alert_price demo_lib (demo_world_send_fails 1)
     (1, 7, ustr ''https://x/event/abc/abc-market'', ustr ''82000 YES'', Finite 50, ustr ''>='')
   = Inr (Inr (Finite (3 / 4)))"
  unfolding demo_world_send_fails_def by (rule demo_alert_price)

lemma demo_snapshot:
  "get_all_active_alerts [demo_alert 1 7 True]
     = [(1, 7, ustr ''https://x/event/abc/abc-market'', ustr ''82000 YES'', Finite 50, ustr ''>='')]"
  by (simp add: get_all_active_alerts_def row_of_def) (simp add: demo_alert_def)

lemma demo_cycle_send_fails:
  "cycle demo_lib demo_world_send_fails [demo_alert 1 7 True]
     = ([demo_alert 1 7 False], [], [(1, Triggered (Finite 75) False)])"
proof -
  have d: "fst (update_active [demo_alert 1 7 True] 7 1) = [demo_alert 1 7 False]"
    by (simp add: update_active_def update_matches_def) (simp add: demo_alert_def)
  have "process_alert demo_lib (demo_world_send_fails 1) [demo_alert 1 7 True]
          (1, 7, ustr ''https://x/event/abc/abc-market'', ustr ''82000 YES'', Finite 50, ustr ''>='')
        = ([demo_alert 1 7 False], [], Triggered (Finite 75) False)"
    unfolding process_alert_price [OF demo_world_send_fails_price]
    by (simp add: d should_trigger_iff demo_world_send_fails_def demo_env_def demo_cents
        float_ge_def int64_def)
  then show ?thesis by (simp add: cycle_def demo_snapshot)
qed

theorem triggered_alert_deactivated_once_witness:
  "send_raises (demo_world_send_fails 1)
   \<and> fst (cycle demo_lib demo_world_send_fails [demo_alert 1 7 True]) = [demo_alert 1 7 False]
   \<and> \<not> (\<exists>b \<in> set (fst (cycle demo_lib demo_world_send_fails [demo_alert 1 7 True])).
          alert_id b = 1 \<and> user_id b = 7 \<and> active b)
   \<and> 1 \<notin> fst ` set (snd (snd (run_steps demo_lib [Cycle demo_world, Cycle demo_world]
                                  [demo_alert 1 7 False])))
   \<and> demo_alert 1 7 False \<in> set (fst (run_steps demo_lib [Cycle demo_world, Cycle demo_world]
                                  [demo_alert 1 7 False]))"
proof -
  have s: "send_raises (demo_world_send_fails 1)"
    by (simp add: demo_world_send_fails_def demo_env_def)
  have h1: "(1, 7, ustr ''https://x/event/abc/abc-market'', ustr ''82000 YES'', Finite 50, ustr ''>='')
      \<in> set (get_all_active_alerts [demo_alert 1 7 True])"
    by (simp add: demo_snapshot)
  have h3: "should_trigger (ustr ''>='') (float_mul demo_lib (Finite (3 / 4)) (Finite 100)) (Finite 50)"
    by (simp add: should_trigger_iff demo_cents float_ge_def)
  have h4: "\<not> deactivate_raises (demo_world_send_fails 1)"
    by (simp add: demo_world_send_fails_def demo_env_def)
  have pk: "primary_key [demo_alert 1 7 False]" by (simp add: primary_key_def)
  from triggered_alert_deactivated_once
    [where aid = 1 and uid = 7 and url = "ustr ''https://x/event/abc/abc-market''"
       and oc = "ustr ''82000 YES''" and tp = "Finite 50" and d = "ustr ''>=''"
       and t = "[demo_alert 1 7 True]" and L = demo_lib and W = demo_world_send_fails
       and p = "Finite (3 / 4)"]
    h1 demo_world_send_fails_price h3 h4
  have a: "\<forall>b \<in> set (fst (cycle demo_lib demo_world_send_fails [demo_alert 1 7 True])).
      alert_id b = 1 \<and> user_id b = 7 \<longrightarrow> \<not> active b"
    by blast
  from triggered_alert_deactivated_once
    [where t = "[demo_alert 1 7 False]" and a = "demo_alert 1 7 False" and L = demo_lib
       and ss = "[Cycle demo_world, Cycle demo_world]"] pk
  have b: "alert_id (demo_alert 1 7 False) \<notin> fst ` set (snd (snd (run_steps demo_lib
             [Cycle demo_world, Cycle demo_world] [demo_alert 1 7 False])))
     \<and> demo_alert 1 7 False \<in> set (fst (run_steps demo_lib [Cycle demo_world, Cycle demo_world]
                                  [demo_alert 1 7 False]))"
    by simp
  from s a b show ?thesis by (simp add: demo_cycle_send_fails)
qed

subsection \<open>Failures stay inside one alert\<close>

lemma alert_price_skips:
  "alert_price L e r = Inr (Inl s) \<Longrightarrow> s = NoSlug \<or> s = NoEvent \<or> s = NoToken \<or> s = NoPrice"
  by (cases r) (auto simp: alert_price_def split: option.splits sum.splits if_splits)

lemma alert_outcome_Triggered:
  assumes "alert_outcome L e (aid, uid, url, oc, tp, d) = Triggered c ok"
  shows "\<exists>p. alert_price L e (aid, uid, url, oc, tp, d) = Inr (Inr p)
           \<and> should_trigger d (float_mul L p (Finite 100)) tp \<and> \<not> deactivate_raises e
           \<and> int64 aid \<and> int64 uid"
proof (cases "alert_price L e (aid, uid, url, oc, tp, d)")
  case (Inl x)
  with assms show ?thesis by (simp add: alert_outcome_def process_alert_no_price)
next
  case (Inr v)
  show ?thesis
  proof (cases v)
    case (Inl s)
    with Inr alert_price_skips [of L e "(aid, uid, url, oc, tp, d)" s] assms show ?thesis
      by (auto simp: alert_outcome_def process_alert_no_price)
  next
    case p: (Inr p)
    with Inr have ap: "alert_price L e (aid, uid, url, oc, tp, d) = Inr (Inr p)" by simp
    from assms process_alert_price [OF ap, of "[]"] ap show ?thesis
      by (auto simp: alert_outcome_def split: if_splits)
  qed
qed

lemma only_deactivated_origin:
  "only_deactivated t t' \<Longrightarrow> b \<in> set t'
    \<Longrightarrow> \<exists>a \<in> set t. b = a \<or> b = a\<lparr>active := False\<rparr>"
  unfolding only_deactivated_def
  by (induction t t' rule: list_all2_induct) auto

text \<open>
  C4, as the code has it. The log of a pass has one entry for every alert of the
  snapshot, in order, and the entry of an alert is determined by its own row and by what
  the world does while it is processed: an error for one alert does not stop the
  others. Every alert that does not end as triggered, in particular every alert whose
  processing raised (in parsing, resolving, selecting, fetching or in the \<open>UPDATE\<close>), has
  its row unchanged in the table afterwards. An alert whose message could not be
  delivered is still deactivated.
\<close>

theorem cycle_isolates_alerts:
  "snd (snd (cycle L W t))
     = map (\<lambda>r. (fst r, alert_outcome L (W (fst r)) r)) (get_all_active_alerts t)
   \<and> (primary_key t \<and> a \<in> set t \<and> active a
        \<and> (\<forall>c ok. alert_outcome L (W (alert_id a)) (row_of a) \<noteq> Triggered c ok)
       \<longrightarrow> a \<in> set (fst (cycle L W t)))
   \<and> (primary_key t \<and> a \<in> set t \<and> active a
        \<and> alert_outcome L (W (alert_id a)) (row_of a) = Triggered c False
       \<longrightarrow> (\<forall>b \<in> set (fst (cycle L W t)). alert_id b = alert_id a \<longrightarrow> \<not> active b))"
proof (intro conjI impI)
  show "snd (snd (cycle L W t))
     = map (\<lambda>r. (fst r, alert_outcome L (W (fst r)) r)) (get_all_active_alerts t)"
    by (simp add: cycle_def run_alerts_log)
next
  assume h: "primary_key t \<and> a \<in> set t \<and> active a
        \<and> (\<forall>c ok. alert_outcome L (W (alert_id a)) (row_of a) \<noteq> Triggered c ok)"
  have "a \<in> set (fst (run_alerts L W (get_all_active_alerts t) t))"
  proof (rule run_alerts_keeps)
    show "a \<in> set t" using h by simp
  next
    fix r c ok
    assume r: "r \<in> set (get_all_active_alerts t)" and i: "fst r = alert_id a"
    from r obtain b where b: "b \<in> set t" "r = row_of b" by (auto simp: snapshot_rows)
    with i have "alert_id b = alert_id a" by (simp add: fst_row_of)
    with h b(1) have "b = a" by (intro primary_key_same_id [of t]) simp_all
    with b(2) i h show "alert_outcome L (W (fst r)) r \<noteq> Triggered c ok" by simp
  qed
  then show "a \<in> set (fst (cycle L W t))" by (simp add: cycle_def)
next
  assume h: "primary_key t \<and> a \<in> set t \<and> active a
        \<and> alert_outcome L (W (alert_id a)) (row_of a) = Triggered c False"
  let ?r = "(alert_id a, user_id a, market_url a, outcome a, target_price a, direction a)"
  have r: "row_of a = ?r" by (simp add: row_of_def)
  from h r alert_outcome_Triggered [of L "W (alert_id a)" "alert_id a" "user_id a" "market_url a"
      "outcome a" "target_price a" "direction a" c False]
  obtain p where p: "alert_price L (W (alert_id a)) ?r = Inr (Inr p)"
    "should_trigger (direction a) (float_mul L p (Finite 100)) (target_price a)"
    "\<not> deactivate_raises (W (alert_id a))" "int64 (alert_id a)" "int64 (user_id a)" by auto
  have "?r \<in> set (get_all_active_alerts t)" using h r by (auto simp: snapshot_rows)
  from run_alerts_deactivates [where W = W and L = L and t = t, OF this p]
  have none: "\<forall>b \<in> set (fst (cycle L W t)). \<not> update_matches (user_id a) (alert_id a) b"
    by (simp add: cycle_def)
  show "\<forall>b \<in> set (fst (cycle L W t)). alert_id b = alert_id a \<longrightarrow> \<not> active b"
  proof (intro ballI impI)
    fix b assume b: "b \<in> set (fst (cycle L W t))" and i: "alert_id b = alert_id a"
    from only_deactivated_origin [OF only_deactivated_cycle b]
    obtain a' where a': "a' \<in> set t" "b = a' \<or> b = a'\<lparr>active := False\<rparr>" by blast
    with i have "alert_id a' = alert_id a" by auto
    with h a'(1) have "a' = a" by (intro primary_key_same_id [of t]) simp_all
    with a'(2) have "user_id b = user_id a" by auto
    with none b i show "\<not> active b" by (auto simp: update_matches_def)
  qed
qed

text \<open>
  C4 says that an error raised while notifying leaves the alert's stored record
  unchanged. When \<open>send_message\<close> raises, the worker logs it and still deactivates the
  alert: the row that was active is no longer in the table.
\<close>

theorem notify_error_counterexample:
  "send_raises (demo_world_send_fails 1)
   \<and> cycle demo_lib demo_world_send_fails [demo_alert 1 7 True]
       = ([demo_alert 1 7 False], [], [(1, Triggered (Finite 75) False)])
   \<and> demo_alert 1 7 True \<notin> set (fst (cycle demo_lib demo_world_send_fails [demo_alert 1 7 True]))"
  by (simp add: demo_cycle_send_fails) (simp add: demo_world_send_fails_def demo_env_def demo_alert_def)

lemma demo_snapshot2:
  "get_all_active_alerts [demo_alert 1 7 True, demo_alert 2 8 True]
     = [(1, 7, ustr ''https://x/event/abc/abc-market'', ustr ''82000 YES'', Finite 50, ustr ''>=''),
        (2, 8, ustr ''https://x/event/abc/abc-market'', ustr ''82000 YES'', Finite 50, ustr ''>='')]"
  by (simp add: get_all_active_alerts_def row_of_def) (simp add: demo_alert_def)

lemma demo_outcome_down:
  "alert_outcome demo_lib (demo_world_down_for_1 1)
     (1, 7, ustr ''https://x/event/abc/abc-market'', ustr ''82000 YES'', Finite 50, ustr ''>='')
   = Failed TransportError"
proof -
  have "alert_price demo_lib (demo_world_down_for_1 1)
     (1, 7, ustr ''https://x/event/abc/abc-market'', ustr ''82000 YES'', Finite 50, ustr ''>='')
     = Inl TransportError"
    by (simp add: alert_price_def demo_world_down_for_1_def eval_defs demo_defs)
  then show ?thesis by (simp add: alert_outcome_def process_alert_no_price)
qed

lemma demo_outcome_ok:
  "int64 i \<Longrightarrow> int64 u \<Longrightarrow>
   alert_outcome demo_lib (demo_env ''0.75'' sr False)
     (i, u, ustr ''https://x/event/abc/abc-market'', ustr ''82000 YES'', Finite 50, ustr ''>='')
   = Triggered (Finite 75) (\<not> sr)"
  unfolding alert_outcome_def process_alert_price [OF demo_alert_price]
  by (simp add: should_trigger_iff demo_env_def demo_cents float_ge_def)

theorem cycle_isolates_alerts_witness:
  "snd (snd (cycle demo_lib demo_world_down_for_1 [demo_alert 1 7 True, demo_alert 2 8 True]))
     = [(1, Failed TransportError), (2, Triggered (Finite 75) True)]
   \<and> demo_alert 1 7 True
       \<in> set (fst (cycle demo_lib demo_world_down_for_1 [demo_alert 1 7 True, demo_alert 2 8 True]))
   \<and> \<not> (\<exists>b \<in> set (fst (cycle demo_lib demo_world_send_fails [demo_alert 1 7 True])).
          alert_id b = 1 \<and> active b)"
proof -
  let ?t = "[demo_alert 1 7 True, demo_alert 2 8 True]"
  have pk: "primary_key ?t" by (simp add: primary_key_def)
  have r1: "row_of (demo_alert 1 7 True)
     = (1, 7, ustr ''https://x/event/abc/abc-market'', ustr ''82000 YES'', Finite 50, ustr ''>='')"
    by (simp add: row_of_def) (simp add: demo_alert_def)
  have w2: "demo_world_down_for_1 2 = demo_env ''0.75'' False False"
    by (simp add: demo_world_down_for_1_def)
  have nt: "\<forall>c ok. alert_outcome demo_lib (demo_world_down_for_1 (alert_id (demo_alert 1 7 True)))
      (row_of (demo_alert 1 7 True)) \<noteq> Triggered c ok"
    by (simp add: r1 demo_outcome_down)
  from cycle_isolates_alerts [where L = demo_lib and W = demo_world_down_for_1 and t = ?t
      and a = "demo_alert 1 7 True"] pk nt
  have a: "snd (snd (cycle demo_lib demo_world_down_for_1 ?t))
       = map (\<lambda>r. (fst r, alert_outcome demo_lib (demo_world_down_for_1 (fst r)) r))
           (get_all_active_alerts ?t)"
    and b: "demo_alert 1 7 True \<in> set (fst (cycle demo_lib demo_world_down_for_1 ?t))"
    by simp_all
  have pk1: "primary_key [demo_alert 1 7 True]" by (simp add: primary_key_def)
  have tr: "alert_outcome demo_lib (demo_world_send_fails (alert_id (demo_alert 1 7 True)))
      (row_of (demo_alert 1 7 True)) = Triggered (Finite 75) False"
    using demo_outcome_ok [of 1 7 True] by (simp add: r1 demo_world_send_fails_def)
  from cycle_isolates_alerts [where L = demo_lib and W = demo_world_send_fails
      and t = "[demo_alert 1 7 True]" and a = "demo_alert 1 7 True" and c = "Finite 75"] pk1 tr
  have c: "\<forall>b \<in> set (fst (cycle demo_lib demo_world_send_fails [demo_alert 1 7 True])).
      alert_id b = alert_id (demo_alert 1 7 True) \<longrightarrow> \<not> active b"
    by simp
  from a b c show ?thesis
    by (simp add: demo_snapshot2 demo_outcome_down w2 demo_outcome_ok)
qed

section \<open>Properties of the dialogue\<close>

lemma commas_to_dots_idem: "commas_to_dots (commas_to_dots s) = commas_to_dots s"
  by (simp add: commas_to_dots_def)

lemma handle_step3:
  "states uid = Some st \<Longrightarrow> step st = 3
    \<Longrightarrow> handle_add_flow_or_default L gm t states uid (Some entry)
        = handle_price L gm t states uid st entry"
  by (simp add: handle_add_flow_or_default_def)

lemma handle_step3_no_text:
  "states uid = Some st \<Longrightarrow> step st = 3
    \<Longrightarrow> handle_add_flow_or_default L gm t states uid None = (t, states, Inl AttributeError)"
  by (simp add: handle_add_flow_or_default_def)

lemma handle_price_checked:
  assumes "float_of_str L (strip (commas_to_dots entry)) = Some tp"
    "st_market_url st = Some url" "st_outcome st = Some oc" "outcome_strike L oc = Some k"
    "strike_exists_in_event L gm url k = Inr True"
  shows "handle_price L gm t states uid st entry
    = (case add_alert t uid url oc tp of
         Inl x \<Rightarrow> (t, states, Inl x)
       | Inr t1 \<Rightarrow> (t1, states(uid := None), Inr (Some (AlertAdded url oc tp))))"
  using assms by (simp add: handle_price_def)

lemma handle_price_unchanged:
  assumes "\<not> (\<exists>tp url oc k t1. float_of_str L (strip (commas_to_dots entry)) = Some tp
      \<and> st_market_url st = Some url \<and> st_outcome st = Some oc \<and> outcome_strike L oc = Some k
      \<and> strike_exists_in_event L gm url k = Inr True \<and> add_alert t uid url oc tp = Inr t1)"
  shows "fst (handle_price L gm t states uid st entry) = t
       \<and> fst (snd (handle_price L gm t states uid st entry)) = states"
proof (cases "float_of_str L (strip (commas_to_dots entry))")
  case None
  then show ?thesis by (simp add: handle_price_def)
next
  case tp: (Some tp)
  show ?thesis
  proof (cases "st_market_url st")
    case None
    with tp show ?thesis by (simp add: handle_price_def)
  next
    case url: (Some url)
    show ?thesis
    proof (cases "st_outcome st")
      case None
      with tp url show ?thesis by (simp add: handle_price_def)
    next
      case oc: (Some oc)
      show ?thesis
      proof (cases "outcome_strike L oc")
        case None
        with tp url oc show ?thesis by (simp add: handle_price_def)
      next
        case k: (Some k)
        show ?thesis
        proof (cases "strike_exists_in_event L gm url k")
          case (Inl x)
          with tp url oc k show ?thesis by (simp add: handle_price_def)
        next
          case (Inr found)
          show ?thesis
          proof (cases found)
            case False
            with Inr tp url oc k show ?thesis by (simp add: handle_price_def)
          next
            case True
            with assms tp url oc k Inr have "\<And>t1. add_alert t uid url oc tp \<noteq> Inr t1" by auto
            then obtain x where "add_alert t uid url oc tp = Inl x"
              by (cases "add_alert t uid url oc tp") auto
            with True Inr tp url oc k show ?thesis by (simp add: handle_price_def)
          qed
        qed
      qed
    qed
  qed
qed

text \<open>
  C8. A user in step 3 (waiting for the price) sends a message.
  \<^item> The text is parsed by \<open>float\<close> after every comma is replaced by a full stop, so an
    entry with commas is handled exactly like the same entry with full stops.
  \<^item> When the number parses, the stored outcome starts with an integer and
    \<open>strike_exists_in_event\<close> answers true, \<open>add_alert\<close> is called. When the \<open>INSERT\<close> goes
    through (the values can be stored: the user id is a 64-bit integer, the two texts
    have no surrogate, an id is left, the number is not NaN), one new row is added with
    the entered target, direction \<open>>=\<close>, active, and the user's dialogue state is
    removed. When the \<open>INSERT\<close> raises, as it does for the entry \<open>nan\<close>, the exception
    leaves the handler and nothing has changed.
  \<^item> The table or the dialogue states change in no other case: for a message without
    text, for an unparsable number, a missing strike, an unknown strike, or when the
    strike check raises, they are exactly what they were, so the user is still in step
    3 with the stored link and outcome. The replies for an unparsable number, a missing
    strike and an unknown strike are the three re-prompts.
\<close>

theorem price_step_persists_only_on_success:
  assumes "states uid = Some st" and "step st = 3"
  shows
   "(float_of_str L (strip (commas_to_dots entry)) = Some tp
       \<and> st_market_url st = Some url \<and> st_outcome st = Some oc \<and> outcome_strike L oc = Some k
       \<and> strike_exists_in_event L gm url k = Inr True
       \<and> int64 uid \<and> encodable url \<and> encodable oc \<and> int64 (next_id t) \<and> tp \<noteq> NaN
      \<longrightarrow> handle_add_flow_or_default L gm t states uid (Some entry)
          = (t @ [\<lparr>id_col = word_of_int (next_id t), user_id_col = word_of_int uid,
                   market_url = url, outcome = oc,
                   target_price = (if tp = NegZero then Finite 0 else tp),
                   direction = ustr ''>='', active = True\<rparr>],
             states(uid := None), Inr (Some (AlertAdded url oc tp))))
    \<and> (float_of_str L (strip (commas_to_dots entry)) = Some tp
       \<and> st_market_url st = Some url \<and> st_outcome st = Some oc \<and> outcome_strike L oc = Some k
       \<and> strike_exists_in_event L gm url k = Inr True
       \<and> add_alert t uid url oc tp = Inl x
      \<longrightarrow> handle_add_flow_or_default L gm t states uid (Some entry) = (t, states, Inl x))
    \<and> (add_alert t uid url oc NaN
          = (if \<not> int64 uid then Inl OverflowError
             else if \<not> encodable url \<or> \<not> encodable oc then Inl UnicodeEncodeError
             else if \<not> int64 (next_id t) then Inl DatabaseError
             else Inl IntegrityError))
    \<and> (\<not> (\<exists>entry tp url oc k t1. msg = Some entry
            \<and> float_of_str L (strip (commas_to_dots entry)) = Some tp
            \<and> st_market_url st = Some url \<and> st_outcome st = Some oc
            \<and> outcome_strike L oc = Some k \<and> strike_exists_in_event L gm url k = Inr True
            \<and> add_alert t uid url oc tp = Inr t1)
      \<longrightarrow> fst (handle_add_flow_or_default L gm t states uid msg) = t
        \<and> fst (snd (handle_add_flow_or_default L gm t states uid msg)) = states)
    \<and> (float_of_str L (strip (commas_to_dots entry)) = None
      \<longrightarrow> handle_add_flow_or_default L gm t states uid (Some entry)
          = (t, states, Inr (Some BadNumber)))
    \<and> (float_of_str L (strip (commas_to_dots entry)) = Some tp
       \<and> st_market_url st = Some url \<and> st_outcome st = Some oc \<and> outcome_strike L oc = None
      \<longrightarrow> handle_add_flow_or_default L gm t states uid (Some entry)
          = (t, states, Inr (Some BadStrike)))
    \<and> (float_of_str L (strip (commas_to_dots entry)) = Some tp
       \<and> st_market_url st = Some url \<and> st_outcome st = Some oc \<and> outcome_strike L oc = Some k
       \<and> strike_exists_in_event L gm url k = Inr False
      \<longrightarrow> handle_add_flow_or_default L gm t states uid (Some entry)
          = (t, states, Inr (Some NoSuchStrike)))
    \<and> handle_add_flow_or_default L gm t states uid (Some (commas_to_dots entry))
        = handle_add_flow_or_default L gm t states uid (Some entry)"
proof (intro conjI impI)
  assume h: "float_of_str L (strip (commas_to_dots entry)) = Some tp
       \<and> st_market_url st = Some url \<and> st_outcome st = Some oc \<and> outcome_strike L oc = Some k
       \<and> strike_exists_in_event L gm url k = Inr True
       \<and> int64 uid \<and> encodable url \<and> encodable oc \<and> int64 (next_id t) \<and> tp \<noteq> NaN"
  then have "add_alert t uid url oc tp
      = Inr (t @ [\<lparr>id_col = word_of_int (next_id t), user_id_col = word_of_int uid,
                   market_url = url, outcome = oc,
                   target_price = (if tp = NegZero then Finite 0 else tp),
                   direction = ustr ''>='', active = True\<rparr>])"
    by (simp only: add_alert_Inr) simp
  with h show "handle_add_flow_or_default L gm t states uid (Some entry)
          = (t @ [\<lparr>id_col = word_of_int (next_id t), user_id_col = word_of_int uid,
                   market_url = url, outcome = oc,
                   target_price = (if tp = NegZero then Finite 0 else tp),
                   direction = ustr ''>='', active = True\<rparr>],
             states(uid := None), Inr (Some (AlertAdded url oc tp)))"
    using handle_price_checked [of L entry tp st url oc k gm t states uid]
    by (simp add: handle_step3 [where states = states and uid = uid, OF assms])
next
  assume h: "float_of_str L (strip (commas_to_dots entry)) = Some tp
       \<and> st_market_url st = Some url \<and> st_outcome st = Some oc \<and> outcome_strike L oc = Some k
       \<and> strike_exists_in_event L gm url k = Inr True
       \<and> add_alert t uid url oc tp = Inl x"
  then show "handle_add_flow_or_default L gm t states uid (Some entry) = (t, states, Inl x)"
    using handle_price_checked [of L entry tp st url oc k gm t states uid]
    by (simp add: handle_step3 [where states = states and uid = uid, OF assms])
next
  show "add_alert t uid url oc NaN
          = (if \<not> int64 uid then Inl OverflowError
             else if \<not> encodable url \<or> \<not> encodable oc then Inl UnicodeEncodeError
             else if \<not> int64 (next_id t) then Inl DatabaseError
             else Inl IntegrityError)"
    by (simp add: add_alert_def sql_real_def)
next
  assume n: "\<not> (\<exists>entry tp url oc k t1. msg = Some entry
            \<and> float_of_str L (strip (commas_to_dots entry)) = Some tp
            \<and> st_market_url st = Some url \<and> st_outcome st = Some oc
            \<and> outcome_strike L oc = Some k \<and> strike_exists_in_event L gm url k = Inr True
            \<and> add_alert t uid url oc tp = Inr t1)"
  have "fst (handle_add_flow_or_default L gm t states uid msg) = t
        \<and> fst (snd (handle_add_flow_or_default L gm t states uid msg)) = states"
  proof (cases msg)
    case None
    then show ?thesis by (simp add: handle_step3_no_text [where states = states and uid = uid, OF assms])
  next
    case (Some entry2)
    with n have "\<not> (\<exists>tp url oc k t1. float_of_str L (strip (commas_to_dots entry2)) = Some tp
      \<and> st_market_url st = Some url \<and> st_outcome st = Some oc \<and> outcome_strike L oc = Some k
      \<and> strike_exists_in_event L gm url k = Inr True \<and> add_alert t uid url oc tp = Inr t1)"
      by blast
    from handle_price_unchanged [OF this] Some show ?thesis
      by (simp add: handle_step3 [where states = states and uid = uid, OF assms])
  qed
  then show "fst (handle_add_flow_or_default L gm t states uid msg) = t"
    and "fst (snd (handle_add_flow_or_default L gm t states uid msg)) = states" by simp_all
next
  assume "float_of_str L (strip (commas_to_dots entry)) = None"
  then show "handle_add_flow_or_default L gm t states uid (Some entry)
          = (t, states, Inr (Some BadNumber))"
    by (simp add: handle_step3 [where states = states and uid = uid, OF assms] handle_price_def)
next
  assume "float_of_str L (strip (commas_to_dots entry)) = Some tp
       \<and> st_market_url st = Some url \<and> st_outcome st = Some oc \<and> outcome_strike L oc = None"
  then show "handle_add_flow_or_default L gm t states uid (Some entry)
          = (t, states, Inr (Some BadStrike))"
    by (simp add: handle_step3 [where states = states and uid = uid, OF assms] handle_price_def)
next
  assume "float_of_str L (strip (commas_to_dots entry)) = Some tp
       \<and> st_market_url st = Some url \<and> st_outcome st = Some oc \<and> outcome_strike L oc = Some k
       \<and> strike_exists_in_event L gm url k = Inr False"
  then show "handle_add_flow_or_default L gm t states uid (Some entry)
          = (t, states, Inr (Some NoSuchStrike))"
    by (simp add: handle_step3 [where states = states and uid = uid, OF assms] handle_price_def)
next
  show "handle_add_flow_or_default L gm t states uid (Some (commas_to_dots entry))
        = handle_add_flow_or_default L gm t states uid (Some entry)"
    by (simp add: handle_step3 [where states = states and uid = uid, OF assms] handle_price_def commas_to_dots_idem)
qed

lemma demo_states_7:
  "demo_states oc 7 = Some \<lparr>step = 3, st_market_url = Some (ustr ''https://x/event/abc/abc-market''),
                 st_outcome = Some (ustr oc)\<rparr>"
  by (simp add: demo_states_def)

lemma demo_float_48_5:
  "float_of_str demo_lib (strip (commas_to_dots (ustr ''48,5''))) = Some (Finite (97 / 2))"
  by (simp add: eval_defs demo_defs)

lemma demo_float_nan:
  "float_of_str demo_lib (strip (commas_to_dots (ustr ''nan''))) = Some NaN"
  by (simp add: eval_defs demo_defs)

lemma demo_strike_82000:
  "strike_exists_in_event demo_lib demo_gamma (ustr ''https://x/event/abc/abc-market'') 82000 = Inr True"
  by (simp add: eval_defs demo_defs)

lemma demo_strike_90000:
  "strike_exists_in_event demo_lib demo_gamma (ustr ''https://x/event/abc/abc-market'') 90000 = Inr False"
  by (simp add: eval_defs demo_defs)

lemma demo_encodable:
  "encodable (ustr ''https://x/event/abc/abc-market'')" "encodable (ustr ''82000 YES'')"
  by (simp_all add: eval_defs)

theorem price_step_persists_only_on_success_witness:
  "handle_add_flow_or_default demo_lib demo_gamma [] (demo_states ''82000 YES'') 7 (Some (ustr ''48,5''))
     = ([\<lparr>id_col = 1, user_id_col = 7, market_url = ustr ''https://x/event/abc/abc-market'',
           outcome = ustr ''82000 YES'', target_price = Finite (97 / 2), direction = ustr ''>='',
           active = True\<rparr>],
        (demo_states ''82000 YES'')(7 := None),
        Inr (Some (AlertAdded (ustr ''https://x/event/abc/abc-market'') (ustr ''82000 YES'')
                     (Finite (97 / 2)))))
   \<and> handle_add_flow_or_default demo_lib demo_gamma [] (demo_states ''82000 YES'') 7 (Some (ustr ''nan''))
     = ([], demo_states ''82000 YES'', Inl IntegrityError)
   \<and> handle_add_flow_or_default demo_lib demo_gamma [] (demo_states ''90000 YES'') 7 (Some (ustr ''48,5''))
     = ([], demo_states ''90000 YES'', Inr (Some NoSuchStrike))
   \<and> handle_add_flow_or_default demo_lib demo_gamma [] (demo_states ''82000 YES'') 7 (Some (ustr ''abc''))
     = ([], demo_states ''82000 YES'', Inr (Some BadNumber))"
proof -
  have k1: "outcome_strike demo_lib (ustr ''82000 YES'') = Some 82000"
    by (simp add: eval_defs demo_defs)
  have k2: "outcome_strike demo_lib (ustr ''90000 YES'') = Some 90000"
    by (simp add: eval_defs demo_defs)
  have f3: "float_of_str demo_lib (strip (commas_to_dots (ustr ''abc''))) = None"
    by (simp add: eval_defs demo_defs)
  have n: "next_id [] = 1" by (simp add: next_id_def)
  have nan: "add_alert [] 7 (ustr ''https://x/event/abc/abc-market'') (ustr ''82000 YES'') NaN
      = Inl IntegrityError"
    by (simp add: add_alert_def sql_real_def n demo_encodable)
  from price_step_persists_only_on_success [where states = "demo_states ''82000 YES''" and uid = 7
        and st = "\<lparr>step = 3, st_market_url = Some (ustr ''https://x/event/abc/abc-market''),
                 st_outcome = Some (ustr ''82000 YES'')\<rparr>"
        and L = demo_lib and entry = "ustr ''48,5''" and tp = "Finite (97 / 2)"
        and url = "ustr ''https://x/event/abc/abc-market''" and oc = "ustr ''82000 YES''"
        and k = 82000 and gm = demo_gamma and t = "[]", OF demo_states_7]
    demo_float_48_5 k1 demo_strike_82000 n demo_encodable
  have a: "handle_add_flow_or_default demo_lib demo_gamma [] (demo_states ''82000 YES'') 7
             (Some (ustr ''48,5''))
     = ([\<lparr>id_col = 1, user_id_col = 7, market_url = ustr ''https://x/event/abc/abc-market'',
           outcome = ustr ''82000 YES'', target_price = Finite (97 / 2), direction = ustr ''>='',
           active = True\<rparr>],
        (demo_states ''82000 YES'')(7 := None),
        Inr (Some (AlertAdded (ustr ''https://x/event/abc/abc-market'') (ustr ''82000 YES'')
                     (Finite (97 / 2)))))"
    by simp
  from price_step_persists_only_on_success [where states = "demo_states ''82000 YES''" and uid = 7
        and st = "\<lparr>step = 3, st_market_url = Some (ustr ''https://x/event/abc/abc-market''),
                 st_outcome = Some (ustr ''82000 YES'')\<rparr>"
        and L = demo_lib and entry = "ustr ''nan''" and tp = NaN
        and url = "ustr ''https://x/event/abc/abc-market''" and oc = "ustr ''82000 YES''"
        and k = 82000 and gm = demo_gamma and t = "[]" and x = IntegrityError, OF demo_states_7]
    demo_float_nan k1 demo_strike_82000 nan
  have d: "handle_add_flow_or_default demo_lib demo_gamma [] (demo_states ''82000 YES'') 7
             (Some (ustr ''nan'')) = ([], demo_states ''82000 YES'', Inl IntegrityError)"
    by simp
  from price_step_persists_only_on_success [where states = "demo_states ''90000 YES''" and uid = 7
        and st = "\<lparr>step = 3, st_market_url = Some (ustr ''https://x/event/abc/abc-market''),
                 st_outcome = Some (ustr ''90000 YES'')\<rparr>"
        and L = demo_lib and entry = "ustr ''48,5''" and tp = "Finite (97 / 2)"
        and url = "ustr ''https://x/event/abc/abc-market''" and oc = "ustr ''90000 YES''"
        and k = 90000 and gm = demo_gamma and t = "[]", OF demo_states_7]
    demo_float_48_5 k2 demo_strike_90000
  have b: "handle_add_flow_or_default demo_lib demo_gamma [] (demo_states ''90000 YES'') 7
             (Some (ustr ''48,5'')) = ([], demo_states ''90000 YES'', Inr (Some NoSuchStrike))"
    by simp
  from price_step_persists_only_on_success [where states = "demo_states ''82000 YES''" and uid = 7
        and st = "\<lparr>step = 3, st_market_url = Some (ustr ''https://x/event/abc/abc-market''),
                 st_outcome = Some (ustr ''82000 YES'')\<rparr>"
        and L = demo_lib and entry = "ustr ''abc''" and gm = demo_gamma and t = "[]", OF demo_states_7] f3
  have c: "handle_add_flow_or_default demo_lib demo_gamma [] (demo_states ''82000 YES'') 7
             (Some (ustr ''abc'')) = ([], demo_states ''82000 YES'', Inr (Some BadNumber))"
    by simp
  from a b c d show ?thesis by simp
qed

lemma add_flow_reaches_price_step:
  "fst (snd (handle_add_flow_or_default L gm t
       (fst (snd (handle_add_flow_or_default L gm t (fst (cmd_add states uid)) uid (Some a))))
       uid (Some b))) uid
   = Some \<lparr>step = 3, st_market_url = Some (strip a), st_outcome = Some (strip b)\<rparr>"
  by (simp add: handle_add_flow_or_default_def cmd_add_def)

section \<open>Invariant of the table, and three runs\<close>

text \<open>
  The ids of the table stay unique: the empty table has unique ids, and adding an alert,
  deactivating one and a pass of the worker keep them unique.
\<close>

theorem primary_key_invariant:
  "primary_key []
   \<and> (primary_key t \<longrightarrow>
        (\<forall>t1. add_alert t uid url oc tp = Inr t1 \<longrightarrow> primary_key t1)
      \<and> (\<forall>t1 ok. deactivate_alert t u aid = Inr (t1, ok) \<longrightarrow> primary_key t1)
      \<and> primary_key (fst (cycle L W t)))"
proof (intro conjI impI allI)
  show "primary_key []" by (rule primary_key_empty)
next
  fix t1
  assume "primary_key t" "add_alert t uid url oc tp = Inr t1"
  then show "primary_key t1" by (rule primary_key_add)
next
  fix t1 ok
  assume "primary_key t" "deactivate_alert t u aid = Inr (t1, ok)"
  then show "primary_key t1" by (rule primary_key_deactivate)
next
  assume pk: "primary_key t"
  show "primary_key (fst (cycle L W t))"
    using only_deactivated_cycle pk by (rule only_deactivated_primary_key)
qed

theorem primary_key_invariant_witness:
  "primary_key [demo_alert 1 7 True]
   \<and> add_alert [demo_alert 1 7 True] 8 (ustr ''u'') (ustr ''1 yes'') (Finite 5)
       = Inr [demo_alert 1 7 True,
              \<lparr>id_col = 2, user_id_col = 8, market_url = ustr ''u'', outcome = ustr ''1 yes'',
                target_price = Finite 5, direction = ustr ''>='', active = True\<rparr>]
   \<and> primary_key [demo_alert 1 7 True,
              \<lparr>id_col = 2, user_id_col = 8, market_url = ustr ''u'', outcome = ustr ''1 yes'',
                target_price = Finite 5, direction = ustr ''>='', active = True\<rparr>]
   \<and> primary_key (fst (cycle demo_lib demo_world [demo_alert 1 7 True]))"
proof -
  have pk: "primary_key [demo_alert 1 7 True]" by (simp add: primary_key_def)
  have n: "next_id [demo_alert 1 7 True] = 2" by (simp add: next_id_def)
  have a: "add_alert [demo_alert 1 7 True] 8 (ustr ''u'') (ustr ''1 yes'') (Finite 5)
       = Inr [demo_alert 1 7 True,
              \<lparr>id_col = 2, user_id_col = 8, market_url = ustr ''u'', outcome = ustr ''1 yes'',
                target_price = Finite 5, direction = ustr ''>='', active = True\<rparr>]"
    by (simp add: add_alert_def n sql_real_def encodable_def is_scalar_def ustr_def)
  from primary_key_invariant [where t = "[demo_alert 1 7 True]" and uid = 8 and url = "ustr ''u''"
      and oc = "ustr ''1 yes''" and tp = "Finite 5" and L = demo_lib and W = demo_world] pk a
  show ?thesis by simp
qed

text \<open>
  The dialogue from \<open>/add\<close> to the stored alert: the link, the outcome \<open>82000 YES\<close> and
  the price \<open>48\<close>, with the strike 82000 present in the event. One alert is stored, with
  target 48 and direction \<open>>=\<close>, and the user's dialogue state is gone.
\<close>

theorem scenario_alert_added:
  "handle_add_flow_or_default demo_lib demo_gamma []
     (fst (snd (handle_add_flow_or_default demo_lib demo_gamma []
        (fst (snd (handle_add_flow_or_default demo_lib demo_gamma [] (fst (cmd_add demo_no_states 7)) 7
           (Some (ustr ''https://x/event/abc/abc-market'')))))
        7 (Some (ustr ''82000 YES'')))))
     7 (Some (ustr ''48''))
   = ([\<lparr>id_col = 1, user_id_col = 7, market_url = ustr ''https://x/event/abc/abc-market'',
         outcome = ustr ''82000 YES'', target_price = Finite 48, direction = ustr ''>='',
         active = True\<rparr>],
      demo_no_states,
      Inr (Some (AlertAdded (ustr ''https://x/event/abc/abc-market'') (ustr ''82000 YES'')
                   (Finite 48))))"
proof -
  have s: "strip (ustr ''https://x/event/abc/abc-market'') = ustr ''https://x/event/abc/abc-market''"
    "strip (ustr ''82000 YES'') = ustr ''82000 YES''"
    by (simp_all add: eval_defs)
  have f: "float_of_str demo_lib (strip (commas_to_dots (ustr ''48''))) = Some (Finite 48)"
    by (simp add: eval_defs demo_defs)
  have k: "outcome_strike demo_lib (ustr ''82000 YES'') = Some 82000"
    by (simp add: eval_defs demo_defs)
  have n: "next_id [] = 1" by (simp add: next_id_def)
  have u: "demo_no_states(7 := None) = demo_no_states"
    by (rule ext) (simp add: demo_no_states_def)
  show ?thesis
    by (simp add: handle_add_flow_or_default_def cmd_add_def handle_price_def s f k
        demo_strike_82000 add_alert_def n u demo_encodable sql_real_def)
qed

text \<open>
  An active alert with target 50 and direction \<open>>=\<close>, and a price of 0.75: the first pass
  sends one message and deactivates the alert, the second pass does nothing.
\<close>

theorem scenario_notified_once:
  "run_steps demo_lib [Cycle demo_world, Cycle demo_world] [demo_alert 1 7 True]
   = ([demo_alert 1 7 False],
      [(7, 1, ustr ''https://x/event/abc/abc-market'', ustr ''82000 YES'', Finite 50, Finite 75)],
      [(1, Triggered (Finite 75) True)])"
proof -
  have d: "fst (update_active [demo_alert 1 7 True] 7 1) = [demo_alert 1 7 False]"
    by (simp add: update_active_def update_matches_def) (simp add: demo_alert_def)
  have p: "process_alert demo_lib (demo_world 1) [demo_alert 1 7 True]
          (1, 7, ustr ''https://x/event/abc/abc-market'', ustr ''82000 YES'', Finite 50, ustr ''>='')
        = ([demo_alert 1 7 False],
           [(7, 1, ustr ''https://x/event/abc/abc-market'', ustr ''82000 YES'', Finite 50, Finite 75)],
           Triggered (Finite 75) True)"
    unfolding demo_world_def process_alert_price [OF demo_alert_price]
    by (simp add: d should_trigger_iff demo_env_def demo_cents float_ge_def)
  have c1: "cycle demo_lib demo_world [demo_alert 1 7 True]
     = ([demo_alert 1 7 False],
        [(7, 1, ustr ''https://x/event/abc/abc-market'', ustr ''82000 YES'', Finite 50, Finite 75)],
        [(1, Triggered (Finite 75) True)])"
    by (simp add: cycle_def demo_snapshot p)
  have c2: "cycle demo_lib demo_world [demo_alert 1 7 False] = ([demo_alert 1 7 False], [], [])"
    by (simp add: cycle_def get_all_active_alerts_def)
  show ?thesis by (simp add: c1 c2)
qed

text \<open>
  When the price service answers with a status other than 200, \<open>fetch_token_price\<close>
  returns \<open>None\<close>; and an alert whose price is unavailable is skipped: no message, and
  the table is what it was.
\<close>

theorem price_unavailable_skips:
  "(clob e token_id (ustr ''BUY'') = Response status body \<and> status \<noteq> 200
      \<longrightarrow> fetch_token_price L (clob e) token_id (ustr ''BUY'') = Inr None)
   \<and> (alert_price L e r = Inr (Inl NoPrice) \<longrightarrow> process_alert L e t r = (t, [], NoPrice))"
  by (simp add: fetch_token_price_def process_alert_no_price)

theorem price_unavailable_skips_witness:
  "cycle demo_lib demo_world [(demo_alert 1 7 True)\<lparr>outcome := ustr ''82000 no''\<rparr>]
   = ([(demo_alert 1 7 True)\<lparr>outcome := ustr ''82000 no''\<rparr>], [], [(1, NoPrice)])"
proof -
  let ?r = "(1, 7, ustr ''https://x/event/abc/abc-market'', ustr ''82000 no'', Finite 50, ustr ''>='')"
  have sn: "get_all_active_alerts [(demo_alert 1 7 True)\<lparr>outcome := ustr ''82000 no''\<rparr>] = [?r]"
    by (simp add: get_all_active_alerts_def row_of_def alert_id_def user_id_def demo_alert_def)
  have c: "clob (demo_world 1) (ustr ''222'') (ustr ''BUY'') = Response 404 None \<and> (404::nat) \<noteq> 200"
    by (simp add: demo_world_def demo_env_def demo_clob_def ustr_def)
  have f: "fetch_token_price demo_lib (clob (demo_world 1)) (ustr ''222'') (ustr ''BUY'') = Inr None"
    using price_unavailable_skips [of "demo_world 1" "ustr ''222''" 404 None demo_lib] c by blast
  have tok: "pick_token_id_for_outcome demo_lib demo_event (ustr ''82000 no'') = Inr (Some (ustr ''222''))"
    by (simp add: eval_defs demo_defs)
  have sl: "extract_event_slug demo_lib (ustr ''https://x/event/abc/abc-market'') = Some (ustr ''abc'')"
    by (simp add: eval_defs demo_defs)
  have ev: "fetch_event_by_slug (gamma (demo_world 1)) (ustr ''abc'') = Inr demo_event"
    by (simp add: demo_world_def demo_env_def demo_gamma_def fetch_event_by_slug_def
        is_success_def events_of_def)
  have tr: "truthy demo_event" "ustr ''abc'' \<noteq> []" "ustr ''222'' \<noteq> []"
    by (simp_all add: demo_event_def ustr_def)
  have "alert_price demo_lib (demo_world 1) ?r = Inr (Inl NoPrice)"
    by (simp add: alert_price_def sl ev tr tok f)
  with price_unavailable_skips [where L = demo_lib and e = "demo_world 1" and r = ?r
      and t = "[(demo_alert 1 7 True)\<lparr>outcome := ustr ''82000 no''\<rparr>]"]
  have "process_alert demo_lib (demo_world 1)
      [(demo_alert 1 7 True)\<lparr>outcome := ustr ''82000 no''\<rparr>] ?r
      = ([(demo_alert 1 7 True)\<lparr>outcome := ustr ''82000 no''\<rparr>], [], NoPrice)"
    by blast
  then show ?thesis by (simp add: cycle_def sn)
qed

end
